theory Spec2Isabelle
  imports Main
begin

section \<open>Python values that occur in run\_evaluation.py\<close>

text \<open>
  Everything the script handles is either the result of \<^verbatim>\<open>json.load\<close> or a string or
  integer it builds itself, so one datatype of JSON values covers prompt pairs, result
  records and the structured output. An object is an association list read with
  \<open>map_of\<close> (the first binding of a key is the one the dictionary holds); its order is the
  insertion order that \<^verbatim>\<open>json.dump\<close> and iteration follow. Numbers are integers here: a
  fractional number behaves like an integer in every operation below.
\<close>

datatype json =
    JNull
  | JBool bool
  | JNum int
  | JStr string
  | JArr "json list"
  | JObj "(string \<times> json) list"

text \<open>
  The exceptions that can leave the functions of the script. \<open>KeyboardInterrupt\<close> stands
  for the exceptions outside \<^verbatim>\<open>Exception\<close>, which \<^verbatim>\<open>except Exception\<close> does not catch.
\<close>

datatype error =
    FileNotFoundError string
  | JSONDecodeError
  | KeyError string
  | TypeError
  | ValueError string
  | KeyboardInterrupt

text \<open>\<^verbatim>\<open>v[k]\<close> for a string key \<open>k\<close>: only a dictionary accepts it.\<close>

fun subscript :: "json \<Rightarrow> string \<Rightarrow> error + json" where
  "subscript (JObj kvs) k = (case map_of kvs k of None \<Rightarrow> Inl (KeyError k) | Some v \<Rightarrow> Inr v)"
| "subscript v k = Inl TypeError"

text \<open>\<^verbatim>\<open>len(v)\<close>.\<close>

fun py_len :: "json \<Rightarrow> error + nat" where
  "py_len (JArr xs) = Inr (length xs)"
| "py_len (JStr s) = Inr (length s)"
| "py_len (JObj kvs) = Inr (length (remdups (map fst kvs)))"
| "py_len v = Inl TypeError"

text \<open>
  \<^verbatim>\<open>for pair in v\<close>: a list yields its elements, a string its characters, a dictionary
  its keys.
\<close>

fun py_iter :: "json \<Rightarrow> error + json list" where
  "py_iter (JArr xs) = Inr xs"
| "py_iter (JStr s) = Inr (map (\<lambda>c. JStr [c]) s)"
| "py_iter (JObj kvs) = Inr (map JStr (rev (remdups (rev (map fst kvs)))))"
| "py_iter v = Inl TypeError"

text \<open>
  \<^verbatim>\<open>v[:n]\<close>, which the progress line applies to \<^verbatim>\<open>base_question\<close>. Strings and lists can
  be sliced; every other value raises (a dictionary raises too; which exception depends
  on the interpreter's version, and \<open>TypeError\<close> stands for it).
\<close>

fun slice_to :: "nat \<Rightarrow> json \<Rightarrow> error + json" where
  "slice_to n (JStr s) = Inr (JStr (take n s))"
| "slice_to n (JArr xs) = Inr (JArr (take n xs))"
| "slice_to n v = Inl TypeError"

section \<open>The world around the evaluator\<close>

text \<open>
  One call of \<^verbatim>\<open>client.messages.create\<close> followed by \<^verbatim>\<open>message.content[0].text\<close> ends in one
  of three ways: it yields a text, it raises an \<^verbatim>\<open>Exception\<close> whose \<^verbatim>\<open>str\<close> is the given
  description, or it is cut short by an exception outside \<^verbatim>\<open>Exception\<close>.
\<close>

datatype outcome = Text string | Failed string | Interrupted

record request =
  req_model :: string
  req_max_tokens :: nat
  req_content :: json

record call =
  invoked_at :: nat
  sent :: request
  returned_at :: nat
  outcome_of :: outcome

text \<open>What \<^verbatim>\<open>open(path)\<close> and \<^verbatim>\<open>json.load\<close> make of a path.\<close>

datatype source_file = Missing | Garbled | Holds json

text \<open>
  What is handed to \<^verbatim>\<open>json.dump\<close>, and the rows handed to the \<^verbatim>\<open>csv\<close> writer (the header
  row first). The text encoding of either file (indentation, quoting, escaping) is
  left out.
\<close>

datatype document = JsonFile json | CsvFile "json list list"

text \<open>
  The state outside the process: the wall clock (in ticks), the files that can be read,
  the directories made, the service calls issued so far and the files written so far,
  the last two in the order they happened.
\<close>

record world =
  now :: nat
  disk :: "string \<Rightarrow> source_file"
  dirs :: "string list"
  calls :: "call list"
  files :: "(string \<times> document) list"

text \<open>
  The remote service is a parameter: from the state of the world and the request it
  determines how the call ends and how many ticks it takes. Local computation takes no
  time in this model.
\<close>

type_synonym service = "world \<Rightarrow> request \<Rightarrow> outcome \<times> nat"

text \<open>
  The two formatting functions of \<^verbatim>\<open>datetime\<close> that the script uses,
  \<^verbatim>\<open>strftime("%Y%m%d_%H%M%S")\<close> and \<^verbatim>\<open>isoformat()\<close>, are parameters as well.
\<close>

record datetime_lib =
  strftime :: "nat \<Rightarrow> string"
  isoformat :: "nat \<Rightarrow> string"

section \<open>class SycophancyEvaluator\<close>

record evaluator =
  api_key :: string
  client :: service
  model :: string
  results_dir :: string

type_synonym result = "(string \<times> json) list"

subsection \<open>\_\_init\_\_\<close>

definition truthy :: "string option \<Rightarrow> bool" where
  "truthy v = (case v of None \<Rightarrow> False | Some s \<Rightarrow> s \<noteq> [])"

definition py_or :: "string option \<Rightarrow> string option \<Rightarrow> string option" where
  "py_or a b = (if truthy a then a else b)"

definition no_key_message :: string where
  "no_key_message =
     ''No API key found. Please set ANTHROPIC_API_KEY in .env file or pass api_key parameter.''"

definition default_model :: string where
  "default_model = ''claude-3-5-sonnet-20241022''"

definition mkdir_exist_ok :: "string \<Rightarrow> world \<Rightarrow> world" where
  "mkdir_exist_ok d w = (if d \<in> set (dirs w) then w else w\<lparr>dirs := dirs w @ [d]\<rparr>)"

text \<open>
  \<open>anthropic\<close> maps the key to the behaviour of the client object built from it;
  \<open>getenv\<close> is the value of \<^verbatim>\<open>os.getenv("ANTHROPIC_API_KEY")\<close>.
\<close>

definition init ::
  "(string \<Rightarrow> service) \<Rightarrow> string option \<Rightarrow> string option \<Rightarrow> string \<Rightarrow> world
     \<Rightarrow> (error + evaluator) \<times> world" where
  "init anthropic getenv api_key_arg model_arg w =
     (case py_or api_key_arg getenv of
        None \<Rightarrow> (Inl (ValueError no_key_message), w)
      | Some k \<Rightarrow>
          if \<not> truthy (Some k) then (Inl (ValueError no_key_message), w)
          else (Inr \<lparr>api_key = k, client = anthropic k, model = model_arg,
                     results_dir = ''results''\<rparr>,
                mkdir_exist_ok ''results'' w))"

subsection \<open>load\_prompt\_pairs\<close>

definition load_prompt_pairs :: "string \<Rightarrow> world \<Rightarrow> error + json" where
  "load_prompt_pairs filepath w =
     (case disk w filepath of
        Missing \<Rightarrow> Inl (FileNotFoundError filepath)
      | Garbled \<Rightarrow> Inl JSONDecodeError
      | Holds data \<Rightarrow> subscript data ''prompt_pairs'')"

subsection \<open>send\_prompt\<close>

text \<open>The call itself: it is logged with the time it was issued and the time it ended.\<close>

definition messages_create :: "evaluator \<Rightarrow> request \<Rightarrow> world \<Rightarrow> outcome \<times> world" where
  "messages_create self req w =
     (case client self w req of
        (out, d) \<Rightarrow>
          (out, w\<lparr>now := now w + d,
                  calls := calls w @ [\<lparr>invoked_at = now w, sent = req,
                                        returned_at = now w + d, outcome_of = out\<rparr>]\<rparr>))"

text \<open>The \<^verbatim>\<open>try\<close> / \<^verbatim>\<open>except Exception\<close> around the call.\<close>

definition send_prompt :: "evaluator \<Rightarrow> json \<Rightarrow> nat \<Rightarrow> world \<Rightarrow> (error + string) \<times> world" where
  "send_prompt self prompt max_tokens w =
     (case messages_create self
             \<lparr>req_model = model self, req_max_tokens = max_tokens, req_content = prompt\<rparr> w of
        (Text t, w') \<Rightarrow> (Inr t, w')
      | (Failed e, w') \<Rightarrow> (Inr (''ERROR: '' @ e), w')
      | (Interrupted, w') \<Rightarrow> (Inl KeyboardInterrupt, w'))"

subsection \<open>run\_evaluation\<close>

text \<open>The dictionary literal that both \<^verbatim>\<open>results.append\<close> calls build.\<close>

definition result_record ::
  "json \<Rightarrow> json \<Rightarrow> json \<Rightarrow> string \<Rightarrow> json \<Rightarrow> string \<Rightarrow> string \<Rightarrow> string \<Rightarrow> result" where
  "result_record prompt_id category base_question framing full_prompt response stamp m =
     [(''prompt_id'', prompt_id),
      (''category'', category),
      (''base_question'', base_question),
      (''framing_type'', JStr framing),
      (''full_prompt'', full_prompt),
      (''response'', JStr response),
      (''timestamp'', JStr stamp),
      (''model'', JStr m)]"

text \<open>
  The body of the loop, in the order of the source: the three lookups, the progress
  line that slices \<^verbatim>\<open>base_question\<close>, the neutral call and its record, the invested
  call and its record. An exception drops the local list of results.
\<close>

definition process_pair ::
  "evaluator \<Rightarrow> datetime_lib \<Rightarrow> json \<Rightarrow> result list \<Rightarrow> world \<Rightarrow> (error + result list) \<times> world" where
  "process_pair self dt pair results w =
     (case subscript pair ''id'' of Inl e \<Rightarrow> (Inl e, w) | Inr prompt_id \<Rightarrow>
     (case subscript pair ''category'' of Inl e \<Rightarrow> (Inl e, w) | Inr category \<Rightarrow>
     (case subscript pair ''base_question'' of Inl e \<Rightarrow> (Inl e, w) | Inr base_question \<Rightarrow>
     (case slice_to 60 base_question of Inl e \<Rightarrow> (Inl e, w) | Inr shown \<Rightarrow>
     (case subscript pair ''neutral_framing'' of Inl e \<Rightarrow> (Inl e, w) | Inr neutral_framing \<Rightarrow>
     (case send_prompt self neutral_framing 1024 w of
        (Inl e, w1) \<Rightarrow> (Inl e, w1)
      | (Inr neutral_response, w1) \<Rightarrow>
     (let results1 = results @
            [result_record prompt_id category base_question ''neutral'' neutral_framing
               neutral_response (isoformat dt (now w1)) (model self)]
      in
     (case subscript pair ''invested_framing'' of Inl e \<Rightarrow> (Inl e, w1) | Inr invested_framing \<Rightarrow>
     (case send_prompt self invested_framing 1024 w1 of
        (Inl e, w2) \<Rightarrow> (Inl e, w2)
      | (Inr invested_response, w2) \<Rightarrow>
          (Inr (results1 @
             [result_record prompt_id category base_question ''invested'' invested_framing
                invested_response (isoformat dt (now w2)) (model self)]), w2))))))))))"

fun process_pairs ::
  "evaluator \<Rightarrow> datetime_lib \<Rightarrow> json list \<Rightarrow> result list \<Rightarrow> world \<Rightarrow> (error + result list) \<times> world" where
  "process_pairs self dt [] results w = (Inr results, w)"
| "process_pairs self dt (pair # rest) results w =
     (case process_pair self dt pair results w of
        (Inl e, w') \<Rightarrow> (Inl e, w')
      | (Inr results', w') \<Rightarrow> process_pairs self dt rest results' w')"

subsection \<open>\_save\_results\_json\<close>

definition output_file :: "evaluator \<Rightarrow> string \<Rightarrow> string \<Rightarrow> string" where
  "output_file self timestamp ext = results_dir self @ ''/evaluation_'' @ timestamp @ ext"

definition json_document :: "evaluator \<Rightarrow> result list \<Rightarrow> string \<Rightarrow> json" where
  "json_document self results timestamp =
     JObj [(''metadata'',
              JObj [(''timestamp'', JStr timestamp),
                    (''model'', JStr (model self)),
                    (''total_prompts'', JNum (int (length results)))]),
           (''results'', JArr (map JObj results))]"

definition save_results_json :: "evaluator \<Rightarrow> result list \<Rightarrow> string \<Rightarrow> world \<Rightarrow> world" where
  "save_results_json self results timestamp w =
     w\<lparr>files := files w @
          [(output_file self timestamp ''.json'', JsonFile (json_document self results timestamp))]\<rparr>"

subsection \<open>\_save\_results\_csv\<close>

definition fieldnames :: "string list" where
  "fieldnames =
     [''prompt_id'', ''category'', ''base_question'', ''framing_type'',
      ''full_prompt'', ''response'', ''timestamp'', ''model'']"

text \<open>
  \<^verbatim>\<open>csv.DictWriter\<close> with its defaults: a key outside the field names raises
  \<open>ValueError\<close>, a field the dictionary lacks is written as the empty string.
\<close>

definition dict_to_list :: "string list \<Rightarrow> result \<Rightarrow> error + json list" where
  "dict_to_list cols rowdict =
     (if list_ex (\<lambda>k. k \<notin> set cols) (map fst rowdict)
      then Inl (ValueError ''dict contains fields not in fieldnames'')
      else Inr (map (\<lambda>k. case map_of rowdict k of None \<Rightarrow> JStr [] | Some v \<Rightarrow> v) cols))"

text \<open>
  \<^verbatim>\<open>writerows\<close> writes row after row; the rows before the first offending dictionary
  are in the file when it raises.
\<close>

fun writerows :: "string list \<Rightarrow> result list \<Rightarrow> json list list \<times> error option" where
  "writerows cols [] = ([], None)"
| "writerows cols (r # rs) =
     (case dict_to_list cols r of
        Inl e \<Rightarrow> ([], Some e)
      | Inr row \<Rightarrow> (case writerows cols rs of (rows, err) \<Rightarrow> (row # rows, err)))"

definition save_results_csv ::
  "evaluator \<Rightarrow> result list \<Rightarrow> string \<Rightarrow> world \<Rightarrow> (error + unit) \<times> world" where
  "save_results_csv self results timestamp w =
     (case writerows fieldnames results of
        (rows, err) \<Rightarrow>
          ((case err of None \<Rightarrow> Inr () | Some e \<Rightarrow> Inl e),
           w\<lparr>files := files w @
                [(output_file self timestamp ''.csv'', CsvFile (map JStr fieldnames # rows))]\<rparr>))"

subsection \<open>run\_evaluation and main\<close>

text \<open>
  The load, the run's time stamp, the first progress line (which takes
  \<^verbatim>\<open>len(prompt_pairs)\<close>), the loop, and then the two files.
\<close>

definition run_evaluation ::
  "evaluator \<Rightarrow> datetime_lib \<Rightarrow> string \<Rightarrow> world \<Rightarrow> (error + result list) \<times> world" where
  "run_evaluation self dt prompt_pairs_file w =
     (case load_prompt_pairs prompt_pairs_file w of Inl e \<Rightarrow> (Inl e, w) | Inr prompt_pairs \<Rightarrow>
     (let timestamp = strftime dt (now w) in
     (case py_len prompt_pairs of Inl e \<Rightarrow> (Inl e, w) | Inr n \<Rightarrow>
     (case py_iter prompt_pairs of Inl e \<Rightarrow> (Inl e, w) | Inr pairs \<Rightarrow>
     (case process_pairs self dt pairs [] w of
        (Inl e, w1) \<Rightarrow> (Inl e, w1)
      | (Inr results, w1) \<Rightarrow>
     (case save_results_csv self results timestamp
             (save_results_json self results timestamp w1) of
        (Inl e, w2) \<Rightarrow> (Inl e, w2)
      | (Inr u, w2) \<Rightarrow> (Inr results, w2)))))))"

definition main ::
  "(string \<Rightarrow> service) \<Rightarrow> string option \<Rightarrow> datetime_lib \<Rightarrow> world \<Rightarrow> (error + unit) \<times> world" where
  "main anthropic getenv dt w =
     (case init anthropic getenv None default_model w of
        (Inl e, w') \<Rightarrow> (Inl e, w')
      | (Inr evaluator, w') \<Rightarrow>
          (case run_evaluation evaluator dt ''prompt_pairs.json'' w' of
             (Inl e, w'') \<Rightarrow> (Inl e, w'')
           | (Inr results, w'') \<Rightarrow> (Inr (), w'')))"

section \<open>Vocabulary of the properties\<close>

definition required_fields :: "string list" where
  "required_fields =
     [''id'', ''category'', ''base_question'', ''neutral_framing'', ''invested_framing'']"

fun string_field :: "json \<Rightarrow> string \<Rightarrow> bool" where
  "string_field (JObj kvs) k = (case map_of kvs k of Some (JStr s) \<Rightarrow> True | _ \<Rightarrow> False)"
| "string_field v k = False"

text \<open>A valid pair is an object that holds a string under each of the five keys.\<close>

definition valid_pair :: "json \<Rightarrow> bool" where
  "valid_pair p = list_all (string_field p) required_fields"

text \<open>An object all of whose values are strings, whatever its keys.\<close>

definition string_valued :: "json \<Rightarrow> bool" where
  "string_valued p =
     (case p of
        JObj kvs \<Rightarrow> list_all (\<lambda>kv. case snd kv of JStr s \<Rightarrow> True | _ \<Rightarrow> False) kvs
      | _ \<Rightarrow> False)"

text \<open>The first of the five keys, in the order the loop reads them, that a pair lacks.\<close>

definition first_missing :: "json \<Rightarrow> string option" where
  "first_missing p = find (\<lambda>k. subscript p k = Inl (KeyError k)) required_fields"

text \<open>A service whose calls end with a text or an \<^verbatim>\<open>Exception\<close>, never with an interrupt.\<close>

definition never_interrupts :: "service \<Rightarrow> bool" where
  "never_interrupts svc = (\<forall>w r. fst (svc w r) \<noteq> Interrupted)"

text \<open>The fields of a record that identify it: which pair, which framing, which prompt.\<close>

definition labels ::
  "result \<Rightarrow> (error + json) \<times> (error + json) \<times> (error + json) \<times> (error + json) \<times> (error + json)" where
  "labels r = (subscript (JObj r) ''prompt_id'', subscript (JObj r) ''category'',
               subscript (JObj r) ''base_question'', subscript (JObj r) ''framing_type'',
               subscript (JObj r) ''full_prompt'')"

text \<open>What \<open>send_prompt\<close> returns for an outcome that it survives.\<close>

definition reply :: "outcome \<Rightarrow> string" where
  "reply out = (case out of Text t \<Rightarrow> t | Failed e \<Rightarrow> ''ERROR: '' @ e | Interrupted \<Rightarrow> [])"

text \<open>The log entry of the call that \<open>send_prompt\<close> makes in a given world.\<close>

definition logged :: "evaluator \<Rightarrow> json \<Rightarrow> nat \<Rightarrow> world \<Rightarrow> call" where
  "logged self p m w =
     (let req = \<lparr>req_model = model self, req_max_tokens = m, req_content = p\<rparr>
      in \<lparr>invoked_at = now w, sent = req, returned_at = now w + snd (client self w req),
          outcome_of = fst (client self w req)\<rparr>)"

text \<open>A record and the call it reports.\<close>

definition built_from :: "evaluator \<Rightarrow> datetime_lib \<Rightarrow> result \<Rightarrow> call \<Rightarrow> bool" where
  "built_from self dt r c =
     (map fst r = fieldnames \<and>
      subscript (JObj r) ''full_prompt'' = Inr (req_content (sent c)) \<and>
      subscript (JObj r) ''response'' = Inr (JStr (reply (outcome_of c))) \<and>
      subscript (JObj r) ''timestamp'' = Inr (JStr (isoformat dt (returned_at c))) \<and>
      subscript (JObj r) ''model'' = Inr (JStr (model self)) \<and>
      req_model (sent c) = model self \<and> req_max_tokens (sent c) = 1024 \<and>
      outcome_of c \<noteq> Interrupted)"

text \<open>Calls that follow one another from time \<open>t\<close> to time \<open>t'\<close> with nothing in between.\<close>

fun back_to_back :: "nat \<Rightarrow> call list \<Rightarrow> nat \<Rightarrow> bool" where
  "back_to_back t [] t' = (t = t')"
| "back_to_back t (c # cs) t' =
     (invoked_at c = t \<and> t \<le> returned_at c \<and> back_to_back (returned_at c) cs t')"

text \<open>The two files of a run that started in world \<open>w\<close> and collected \<open>results\<close>.\<close>

definition written ::
  "evaluator \<Rightarrow> datetime_lib \<Rightarrow> result list \<Rightarrow> world \<Rightarrow> (string \<times> document) list" where
  "written self dt results w =
     [(output_file self (strftime dt (now w)) ''.json'',
       JsonFile (json_document self results (strftime dt (now w)))),
      (output_file self (strftime dt (now w)) ''.csv'',
       CsvFile (map JStr fieldnames # map (map snd) results))]"

section \<open>Concrete inputs\<close>

text \<open>
  A clock format that writes a time as that many strokes, a service that fails on the
  prompt \<open>down\<close> after 3 ticks and answers \<open>OK\<close> after 5 ticks otherwise, a service that is
  interrupted on the prompt \<open>up\<close>, and a world at time 2 whose only readable file holds
  the given pairs.
\<close>

definition demo_dt :: datetime_lib where
  "demo_dt = \<lparr>strftime = (\<lambda>t. ''run-'' @ replicate t CHR ''i''),
              isoformat = (\<lambda>t. ''at-'' @ replicate t CHR ''i'')\<rparr>"

definition demo_service :: service where
  "demo_service w r =
     (if req_content r = JStr ''down'' then (Failed ''timeout'', 3) else (Text ''OK'', 5))"

definition cut_service :: service where
  "cut_service w r =
     (if req_content r = JStr ''up'' then (Interrupted, 1) else (Text ''OK'', 5))"

definition demo_evaluator :: evaluator where
  "demo_evaluator =
     \<lparr>api_key = ''key'', client = demo_service, model = ''m1'', results_dir = ''results''\<rparr>"

definition cut_evaluator :: evaluator where
  "cut_evaluator =
     \<lparr>api_key = ''key'', client = cut_service, model = ''m1'', results_dir = ''results''\<rparr>"

definition demo_pair :: json where
  "demo_pair =
     JObj [(''id'', JStr ''p1''), (''category'', JStr ''c1''), (''base_question'', JStr ''q1''),
           (''neutral_framing'', JStr ''down''), (''invested_framing'', JStr ''up'')]"

definition broken_pair :: json where
  "broken_pair =
     JObj [(''category'', JStr ''c2''), (''base_question'', JStr ''q2''),
           (''neutral_framing'', JStr ''n2''), (''invested_framing'', JStr ''i2'')]"

text \<open>A pair of strings that has everything but \<open>invested_framing\<close>.\<close>

definition half_pair :: json where
  "half_pair =
     JObj [(''id'', JStr ''p3''), (''category'', JStr ''c3''), (''base_question'', JStr ''q3''),
           (''neutral_framing'', JStr ''n3'')]"

definition demo_world :: "json list \<Rightarrow> world" where
  "demo_world ps =
     \<lparr>now = 2,
      disk = (\<lambda>p. if p = ''prompt_pairs.json''
                   then Holds (JObj [(''prompt_pairs'', JArr ps)]) else Missing),
      dirs = [''results''], calls = [], files = []\<rparr>"

section \<open>Lemmas about the model\<close>

lemma send_prompt_eq:
  "send_prompt self p m w =
     (if outcome_of (logged self p m w) = Interrupted then Inl KeyboardInterrupt
      else Inr (reply (outcome_of (logged self p m w))),
      w\<lparr>now := returned_at (logged self p m w), calls := calls w @ [logged self p m w]\<rparr>)"
  by (cases "client self w \<lparr>req_model = model self, req_max_tokens = m, req_content = p\<rparr>")
     (simp add: send_prompt_def messages_create_def reply_def logged_def Let_def split: outcome.splits)

lemma logged_simps:
  "invoked_at (logged self p m w) = now w"
  "now w \<le> returned_at (logged self p m w)"
  "sent (logged self p m w) = \<lparr>req_model = model self, req_max_tokens = m, req_content = p\<rparr>"
  "never_interrupts (client self) \<Longrightarrow> outcome_of (logged self p m w) \<noteq> Interrupted"
  by (simp_all add: logged_def never_interrupts_def Let_def)

lemma valid_pairD:
  assumes "valid_pair p"
  obtains kvs a b c d e where "p = JObj kvs"
    "map_of kvs ''id'' = Some (JStr a)" "map_of kvs ''category'' = Some (JStr b)"
    "map_of kvs ''base_question'' = Some (JStr c)"
    "map_of kvs ''neutral_framing'' = Some (JStr d)"
    "map_of kvs ''invested_framing'' = Some (JStr e)"
  using assms
  by (cases p) (auto simp: valid_pair_def required_fields_def split: option.splits json.splits)

lemma process_pair_valid:
  assumes ni: "never_interrupts (client self)" and vp: "valid_pair p"
  shows "\<exists>r1 r2 c1 c2 w'.
     process_pair self dt p acc w = (Inr (acc @ [r1, r2]), w') \<and>
     calls w' = calls w @ [c1, c2] \<and> files w' = files w \<and> disk w' = disk w \<and> dirs w' = dirs w \<and>
     built_from self dt r1 c1 \<and> built_from self dt r2 c2 \<and>
     back_to_back (now w) [c1, c2] (now w') \<and>
     labels r1 = (subscript p ''id'', subscript p ''category'', subscript p ''base_question'',
                  Inr (JStr ''neutral''), subscript p ''neutral_framing'') \<and>
     labels r2 = (subscript p ''id'', subscript p ''category'', subscript p ''base_question'',
                  Inr (JStr ''invested''), subscript p ''invested_framing'')"
proof -
  from vp obtain kvs a b c d e where p: "p = JObj kvs"
    and f: "map_of kvs ''id'' = Some (JStr a)" "map_of kvs ''category'' = Some (JStr b)"
    "map_of kvs ''base_question'' = Some (JStr c)"
    "map_of kvs ''neutral_framing'' = Some (JStr d)"
    "map_of kvs ''invested_framing'' = Some (JStr e)"
    by (rule valid_pairD)
  define c1 where "c1 = logged self (JStr d) 1024 w"
  define w1 where "w1 = w\<lparr>now := returned_at c1, calls := calls w @ [c1]\<rparr>"
  define c2 where "c2 = logged self (JStr e) 1024 w1"
  have n1: "outcome_of c1 \<noteq> Interrupted" and n2: "outcome_of c2 \<noteq> Interrupted"
    using ni by (simp_all add: c1_def c2_def logged_simps)
  have s1: "send_prompt self (JStr d) 1024 w = (Inr (reply (outcome_of c1)), w1)"
    using n1 by (simp add: send_prompt_eq w1_def c1_def)
  have s2: "send_prompt self (JStr e) 1024 w1 =
      (Inr (reply (outcome_of c2)), w1\<lparr>now := returned_at c2, calls := calls w1 @ [c2]\<rparr>)"
    using n2 by (simp add: send_prompt_eq c2_def)
  have c1: "invoked_at c1 = now w" "now w \<le> returned_at c1"
    "sent c1 = \<lparr>req_model = model self, req_max_tokens = 1024, req_content = JStr d\<rparr>"
    by (simp_all add: c1_def logged_simps)
  have c2: "invoked_at c2 = now w1" "now w1 \<le> returned_at c2"
    "sent c2 = \<lparr>req_model = model self, req_max_tokens = 1024, req_content = JStr e\<rparr>"
    by (simp_all add: c2_def logged_simps)
  have nw1: "now w1 = returned_at c1" by (simp add: w1_def)
  let ?r1 = "result_record (JStr a) (JStr b) (JStr c) ''neutral'' (JStr d)
               (reply (outcome_of c1)) (isoformat dt (returned_at c1)) (model self)"
  let ?r2 = "result_record (JStr a) (JStr b) (JStr c) ''invested'' (JStr e)
               (reply (outcome_of c2)) (isoformat dt (returned_at c2)) (model self)"
  let ?w' = "w1\<lparr>now := returned_at c2, calls := calls w1 @ [c2]\<rparr>"
  have run: "process_pair self dt p acc w = (Inr (acc @ [?r1, ?r2]), ?w')"
    by (simp add: process_pair_def p f s1 s2 nw1)
  have b1: "built_from self dt ?r1 c1"
    using n1 c1(3) by (simp add: built_from_def result_record_def fieldnames_def)
  have b2: "built_from self dt ?r2 c2"
    using n2 c2(3) by (simp add: built_from_def result_record_def fieldnames_def)
  have l1: "labels ?r1 = (subscript p ''id'', subscript p ''category'', subscript p ''base_question'',
                  Inr (JStr ''neutral''), subscript p ''neutral_framing'')"
    by (simp add: labels_def result_record_def p f)
  have l2: "labels ?r2 = (subscript p ''id'', subscript p ''category'', subscript p ''base_question'',
                  Inr (JStr ''invested''), subscript p ''invested_framing'')"
    by (simp add: labels_def result_record_def p f)
  have tl: "back_to_back (now w) [c1, c2] (now ?w')"
    using c1(1,2) c2(1,2) by (simp add: w1_def)
  have rest: "calls ?w' = calls w @ [c1, c2]" "files ?w' = files w" "disk ?w' = disk w" "dirs ?w' = dirs w"
    by (simp_all add: w1_def)
  from run rest b1 b2 tl l1 l2 show ?thesis by blast
qed


lemma back_to_back_append:
  "back_to_back t xs t1 \<Longrightarrow> back_to_back t1 ys t2 \<Longrightarrow> back_to_back t (xs @ ys) t2"
  by (induction xs arbitrary: t) auto

lemma back_to_back_mono: "back_to_back t cs t' \<Longrightarrow> t \<le> t'"
  by (induction cs arbitrary: t) fastforce+

lemma back_to_back_nth:
  "back_to_back t cs t' \<Longrightarrow> i < length cs \<Longrightarrow>
     t \<le> invoked_at (cs ! i) \<and> invoked_at (cs ! i) \<le> returned_at (cs ! i) \<and>
     returned_at (cs ! i) \<le> t' \<and>
     (Suc i < length cs \<longrightarrow> invoked_at (cs ! Suc i) = returned_at (cs ! i))"
proof (induction cs arbitrary: t i)
  case Nil
  then show ?case by simp
next
  case (Cons c cs)
  show ?case
  proof (cases i)
    case 0
    with Cons.prems back_to_back_mono [of "returned_at c" cs t'] show ?thesis
      by (cases cs) auto
  next
    case (Suc j)
    with Cons.prems Cons.IH [of "returned_at c" j] show ?thesis by auto
  qed
qed

lemma process_pairs_valid:
  assumes ni: "never_interrupts (client self)" and vs: "list_all valid_pair ps"
  shows "\<exists>rs cs w'.
     process_pairs self dt ps acc w = (Inr (acc @ rs), w') \<and>
     calls w' = calls w @ cs \<and> files w' = files w \<and> disk w' = disk w \<and> dirs w' = dirs w \<and>
     list_all2 (built_from self dt) rs cs \<and>
     back_to_back (now w) cs (now w') \<and>
     map labels rs =
       concat (map (\<lambda>p.
         [(subscript p ''id'', subscript p ''category'', subscript p ''base_question'',
           Inr (JStr ''neutral''), subscript p ''neutral_framing''),
          (subscript p ''id'', subscript p ''category'', subscript p ''base_question'',
           Inr (JStr ''invested''), subscript p ''invested_framing'')]) ps)"
  using vs
proof (induction ps arbitrary: acc w)
  case Nil
  then show ?case by simp
next
  case (Cons p ps)
  from Cons.prems have vp: "valid_pair p" and vps: "list_all valid_pair ps" by simp_all
  from process_pair_valid [OF ni vp, of dt acc w]
  obtain r1 r2 c1 c2 w1 where
    step: "process_pair self dt p acc w = (Inr (acc @ [r1, r2]), w1)" and
    w1: "calls w1 = calls w @ [c1, c2]" "files w1 = files w" "disk w1 = disk w" "dirs w1 = dirs w" and
    b: "built_from self dt r1 c1" "built_from self dt r2 c2" and
    t: "back_to_back (now w) [c1, c2] (now w1)" and
    l: "labels r1 = (subscript p ''id'', subscript p ''category'', subscript p ''base_question'',
                  Inr (JStr ''neutral''), subscript p ''neutral_framing'')"
       "labels r2 = (subscript p ''id'', subscript p ''category'', subscript p ''base_question'',
                  Inr (JStr ''invested''), subscript p ''invested_framing'')"
    by blast
  from Cons.IH [OF vps, of "acc @ [r1, r2]" w1]
  obtain rs cs w' where
    rest: "process_pairs self dt ps (acc @ [r1, r2]) w1 = (Inr ((acc @ [r1, r2]) @ rs), w')" and
    w': "calls w' = calls w1 @ cs" "files w' = files w1" "disk w' = disk w1" "dirs w' = dirs w1" and
    bs: "list_all2 (built_from self dt) rs cs" and
    ts: "back_to_back (now w1) cs (now w')" and
    ls: "map labels rs =
       concat (map (\<lambda>p.
         [(subscript p ''id'', subscript p ''category'', subscript p ''base_question'',
           Inr (JStr ''neutral''), subscript p ''neutral_framing''),
          (subscript p ''id'', subscript p ''category'', subscript p ''base_question'',
           Inr (JStr ''invested''), subscript p ''invested_framing'')]) ps)"
    by blast
  have 1: "process_pairs self dt (p # ps) acc w = (Inr (acc @ (r1 # r2 # rs)), w')"
    using step rest by simp
  have 2: "calls w' = calls w @ (c1 # c2 # cs)" using w1 w' by simp
  have 3: "list_all2 (built_from self dt) (r1 # r2 # rs) (c1 # c2 # cs)" using b bs by simp
  have 4: "back_to_back (now w) (c1 # c2 # cs) (now w')"
    using back_to_back_append [OF t ts] by simp
  have 5: "map labels (r1 # r2 # rs) =
       concat (map (\<lambda>p.
         [(subscript p ''id'', subscript p ''category'', subscript p ''base_question'',
           Inr (JStr ''neutral''), subscript p ''neutral_framing''),
          (subscript p ''id'', subscript p ''category'', subscript p ''base_question'',
           Inr (JStr ''invested''), subscript p ''invested_framing'')]) (p # ps))"
    using l ls by simp
  from 1 2 3 4 5 w1 w' show ?case by (metis (no_types, lifting))
qed

lemma send_prompt_files: "files (snd (send_prompt self p m w)) = files w"
  by (simp add: send_prompt_eq)

lemma process_pair_files: "files (snd (process_pair self dt p acc w)) = files w"
  by (simp add: process_pair_def send_prompt_eq Let_def split: sum.splits)

lemma process_pairs_files: "files (snd (process_pairs self dt ps acc w)) = files w"
proof (induction ps arbitrary: acc w)
  case Nil
  then show ?case by simp
next
  case (Cons p ps)
  show ?case
  proof (cases "process_pair self dt p acc w")
    case (Pair r w1)
    with process_pair_files [of self dt p acc w] have f: "files w1 = files w" by simp
    show ?thesis
    proof (cases r)
      case (Inl e)
      with Pair f show ?thesis by simp
    next
      case (Inr rs)
      with Pair f Cons.IH [of rs w1] show ?thesis by simp
    qed
  qed
qed

lemma process_pair_keys:
  assumes "process_pair self dt p acc w = (Inr rs, w')"
    and "list_all (\<lambda>r. map fst r = fieldnames) acc"
  shows "list_all (\<lambda>r. map fst r = fieldnames) rs"
  using assms
  by (auto simp: process_pair_def send_prompt_eq Let_def result_record_def fieldnames_def
           split: sum.splits if_splits)

lemma process_pairs_keys:
  assumes "process_pairs self dt ps acc w = (Inr rs, w')"
    and "list_all (\<lambda>r. map fst r = fieldnames) acc"
  shows "list_all (\<lambda>r. map fst r = fieldnames) rs"
  using assms
proof (induction ps arbitrary: acc w)
  case Nil
  then show ?case by simp
next
  case (Cons p ps)
  show ?case
  proof (cases "process_pair self dt p acc w")
    case (Pair r w1)
    show ?thesis
    proof (cases r)
      case (Inl e)
      with Pair Cons.prems show ?thesis by simp
    next
      case (Inr rs1)
      with Pair Cons.prems process_pair_keys [of self dt p acc w rs1 w1]
      have "list_all (\<lambda>r. map fst r = fieldnames) rs1" by simp
      with Pair Inr Cons.prems Cons.IH [of rs1 w1] show ?thesis by simp
    qed
  qed
qed


lemma lookup_own_keys:
  "distinct (map fst r) \<Longrightarrow>
     map (\<lambda>k. case map_of r k of None \<Rightarrow> d | Some v \<Rightarrow> v) (map fst r) = map snd r"
proof (induction r)
  case Nil
  then show ?case by simp
next
  case (Cons kv r)
  obtain k v where kv: "kv = (k, v)" by (cases kv)
  from Cons.prems kv have k: "k \<notin> fst ` set r" and d: "distinct (map fst r)" by auto
  have "map (\<lambda>k'. case map_of (kv # r) k' of None \<Rightarrow> d | Some v \<Rightarrow> v) (map fst r) =
        map (\<lambda>k'. case map_of r k' of None \<Rightarrow> d | Some v \<Rightarrow> v) (map fst r)"
    using k kv by (intro map_cong) auto
  with Cons.IH [OF d] kv show ?case by simp
qed

lemma distinct_fieldnames: "distinct fieldnames"
  by (simp add: fieldnames_def)

lemma dict_to_list_keys:
  assumes "map fst r = fieldnames"
  shows "dict_to_list fieldnames r = Inr (map snd r)"
proof -
  have "distinct (map fst r)" using assms distinct_fieldnames by simp
  from lookup_own_keys [OF this, of "JStr []"] assms
  have "map (\<lambda>k. case map_of r k of None \<Rightarrow> JStr [] | Some v \<Rightarrow> v) fieldnames = map snd r"
    by simp
  moreover have "\<not> list_ex (\<lambda>k. k \<notin> set fieldnames) (map fst r)"
    using assms by (simp add: list_ex_iff)
  ultimately show ?thesis by (simp add: dict_to_list_def)
qed

lemma writerows_keys:
  "list_all (\<lambda>r. map fst r = fieldnames) rs \<Longrightarrow>
     writerows fieldnames rs = (map (map snd) rs, None)"
  by (induction rs) (simp_all add: dict_to_list_keys)

lemma record_field_nth:
  assumes "map fst r = fieldnames" and "j < length fieldnames"
  shows "subscript (JObj r) (fieldnames ! j) = Inr (map snd r ! j)"
proof -
  have "length r = length fieldnames" using assms(1) by (metis length_map)
  then have "map_of (zip (map fst r) (map snd r)) (map fst r ! j) = Some (map snd r ! j)"
    using assms distinct_fieldnames by (intro map_of_zip_nth) auto
  moreover have "zip (map fst r) (map snd r) = r" by (rule zip_map_fst_snd)
  ultimately have "map_of r (fieldnames ! j) = Some (map snd r ! j)"
    using assms(1) by simp
  then show ?thesis by simp
qed

lemma run_evaluation_after_loop:
  assumes "load_prompt_pairs path w = Inr pp" and "py_len pp = Inr n" and "py_iter pp = Inr pairs"
    and "process_pairs self dt pairs [] w = (Inr results, w1)"
  shows "run_evaluation self dt path w =
           (Inr results, w1\<lparr>files := files w @ written self dt results w\<rparr>)"
proof -
  from process_pairs_keys [OF assms(4)] have "list_all (\<lambda>r. map fst r = fieldnames) results"
    by simp
  then have "writerows fieldnames results = (map (map snd) results, None)"
    by (rule writerows_keys)
  moreover have "files w1 = files w"
    using process_pairs_files [of self dt pairs "[]" w] assms(4) by simp
  ultimately show ?thesis
    using assms
    by (simp add: run_evaluation_def save_results_csv_def save_results_json_def written_def Let_def)
qed

lemma run_evaluation_success:
  assumes "run_evaluation self dt path w = (Inr results, w')"
  shows "\<exists>pp pairs w1.
           load_prompt_pairs path w = Inr pp \<and> py_iter pp = Inr pairs \<and>
           process_pairs self dt pairs [] w = (Inr results, w1) \<and>
           list_all (\<lambda>r. map fst r = fieldnames) results \<and>
           w' = w1\<lparr>files := files w @ written self dt results w\<rparr>"
proof -
  from assms obtain pp where pp: "load_prompt_pairs path w = Inr pp"
    by (auto simp: run_evaluation_def Let_def split: sum.splits)
  from assms pp obtain n where n: "py_len pp = Inr n"
    by (auto simp: run_evaluation_def Let_def split: sum.splits)
  from assms pp n obtain pairs where pairs: "py_iter pp = Inr pairs"
    by (auto simp: run_evaluation_def Let_def split: sum.splits)
  obtain r w1 where loop: "process_pairs self dt pairs [] w = (r, w1)"
    by (cases "process_pairs self dt pairs [] w")
  from assms pp n pairs loop obtain rs where rs: "r = Inr rs"
    by (cases r) (auto simp: run_evaluation_def Let_def)
  from run_evaluation_after_loop [OF pp n pairs loop [unfolded rs]] assms
  have "results = rs" and "w' = w1\<lparr>files := files w @ written self dt rs w\<rparr>" by simp_all
  moreover from process_pairs_keys [OF loop [unfolded rs]]
  have "list_all (\<lambda>r. map fst r = fieldnames) rs" by simp
  ultimately show ?thesis using pp pairs loop rs by blast
qed


lemma length_concat_two: "length (concat (map (\<lambda>p. [f p, g p]) ps)) = 2 * length ps"
  by (induction ps) simp_all

lemma list_all2_map_eq: "list_all2 (\<lambda>r c. f r = g c) rs cs \<Longrightarrow> map f rs = map g cs"
  by (induction rule: list_all2_induct) simp_all

lemma valid_run:
  assumes src: "load_prompt_pairs path w = Inr (JArr ps)"
    and valid: "list_all valid_pair ps"
    and ni: "never_interrupts (client self)"
  shows "\<exists>rs cs w1.
     run_evaluation self dt path w = (Inr rs, w1\<lparr>files := files w @ written self dt rs w\<rparr>) \<and>
     calls w1 = calls w @ cs \<and> length rs = 2 * length ps \<and> length cs = 2 * length ps \<and>
     list_all2 (built_from self dt) rs cs \<and>
     back_to_back (now w) cs (now w1) \<and>
     map labels rs =
       concat (map (\<lambda>p.
         [(subscript p ''id'', subscript p ''category'', subscript p ''base_question'',
           Inr (JStr ''neutral''), subscript p ''neutral_framing''),
          (subscript p ''id'', subscript p ''category'', subscript p ''base_question'',
           Inr (JStr ''invested''), subscript p ''invested_framing'')]) ps)"
proof -
  from process_pairs_valid [OF ni valid, of dt "[]" w]
  obtain rs cs w1 where
    loop: "process_pairs self dt ps [] w = (Inr rs, w1)" and
    c: "calls w1 = calls w @ cs" and
    b: "list_all2 (built_from self dt) rs cs" and
    t: "back_to_back (now w) cs (now w1)" and
    l: "map labels rs =
       concat (map (\<lambda>p.
         [(subscript p ''id'', subscript p ''category'', subscript p ''base_question'',
           Inr (JStr ''neutral''), subscript p ''neutral_framing''),
          (subscript p ''id'', subscript p ''category'', subscript p ''base_question'',
           Inr (JStr ''invested''), subscript p ''invested_framing'')]) ps)"
    by auto
  have "length (map labels rs) = 2 * length ps"
    unfolding l by (rule length_concat_two)
  then have n: "length rs = 2 * length ps" by simp
  with b have m: "length cs = 2 * length ps" by (simp add: list_all2_lengthD [symmetric])
  have "run_evaluation self dt path w =
          (Inr rs, w1\<lparr>files := files w @ written self dt rs w\<rparr>)"
    by (rule run_evaluation_after_loop [OF src _ _ loop]) simp_all
  with c n m b t l show ?thesis by blast
qed

subsection \<open>The concrete runs\<close>

lemma demo_loads: "load_prompt_pairs ''prompt_pairs.json'' (demo_world ps) = Inr (JArr ps)"
  by (simp add: load_prompt_pairs_def demo_world_def)

lemma demo_pair_valid: "valid_pair demo_pair"
  by (simp add: valid_pair_def required_fields_def demo_pair_def)

lemma demo_never_interrupts: "never_interrupts (client demo_evaluator)"
  by (simp add: never_interrupts_def demo_evaluator_def demo_service_def)

lemmas demo_unfold =
  run_evaluation_def load_prompt_pairs_def demo_world_def demo_pair_def broken_pair_def
  process_pair_def send_prompt_def messages_create_def demo_evaluator_def demo_service_def
  cut_evaluator_def cut_service_def
  save_results_csv_def save_results_json_def dict_to_list_def fieldnames_def
  result_record_def json_document_def output_file_def Let_def

lemma demo_run_results:
  "fst (run_evaluation demo_evaluator demo_dt ''prompt_pairs.json'' (demo_world [demo_pair])) =
     Inr [[(''prompt_id'', JStr ''p1''), (''category'', JStr ''c1''),
           (''base_question'', JStr ''q1''), (''framing_type'', JStr ''neutral''),
           (''full_prompt'', JStr ''down''), (''response'', JStr ''ERROR: timeout''),
           (''timestamp'', JStr (isoformat demo_dt 5)), (''model'', JStr ''m1'')],
          [(''prompt_id'', JStr ''p1''), (''category'', JStr ''c1''),
           (''base_question'', JStr ''q1''), (''framing_type'', JStr ''invested''),
           (''full_prompt'', JStr ''up''), (''response'', JStr ''OK''),
           (''timestamp'', JStr (isoformat demo_dt 10)), (''model'', JStr ''m1'')]]"
  by (simp add: demo_unfold)

lemma demo_run_calls:
  "calls (snd (run_evaluation demo_evaluator demo_dt ''prompt_pairs.json''
                 (demo_world [demo_pair]))) =
     [\<lparr>invoked_at = 2,
       sent = \<lparr>req_model = ''m1'', req_max_tokens = 1024, req_content = JStr ''down''\<rparr>,
       returned_at = 5, outcome_of = Failed ''timeout''\<rparr>,
      \<lparr>invoked_at = 5,
       sent = \<lparr>req_model = ''m1'', req_max_tokens = 1024, req_content = JStr ''up''\<rparr>,
       returned_at = 10, outcome_of = Text ''OK''\<rparr>]"
  by (simp add: demo_unfold)

lemma demo_run_files:
  "files (snd (run_evaluation demo_evaluator demo_dt ''prompt_pairs.json''
                 (demo_world [demo_pair]))) =
     [(''results/evaluation_'' @ strftime demo_dt 2 @ ''.json'',
       JsonFile (JObj
         [(''metadata'',
           JObj [(''timestamp'', JStr (strftime demo_dt 2)), (''model'', JStr ''m1''),
                 (''total_prompts'', JNum 2)]),
          (''results'',
           JArr [JObj [(''prompt_id'', JStr ''p1''), (''category'', JStr ''c1''),
                       (''base_question'', JStr ''q1''), (''framing_type'', JStr ''neutral''),
                       (''full_prompt'', JStr ''down''), (''response'', JStr ''ERROR: timeout''),
                       (''timestamp'', JStr (isoformat demo_dt 5)), (''model'', JStr ''m1'')],
                 JObj [(''prompt_id'', JStr ''p1''), (''category'', JStr ''c1''),
                       (''base_question'', JStr ''q1''), (''framing_type'', JStr ''invested''),
                       (''full_prompt'', JStr ''up''), (''response'', JStr ''OK''),
                       (''timestamp'', JStr (isoformat demo_dt 10)), (''model'', JStr ''m1'')]])])),
      (''results/evaluation_'' @ strftime demo_dt 2 @ ''.csv'',
       CsvFile
         [[JStr ''prompt_id'', JStr ''category'', JStr ''base_question'', JStr ''framing_type'',
           JStr ''full_prompt'', JStr ''response'', JStr ''timestamp'', JStr ''model''],
          [JStr ''p1'', JStr ''c1'', JStr ''q1'', JStr ''neutral'', JStr ''down'',
           JStr ''ERROR: timeout'', JStr (isoformat demo_dt 5), JStr ''m1''],
          [JStr ''p1'', JStr ''c1'', JStr ''q1'', JStr ''invested'', JStr ''up'',
           JStr ''OK'', JStr (isoformat demo_dt 10), JStr ''m1'']])]"
  by (simp add: demo_unfold)

lemma broken_run:
  "fst (run_evaluation demo_evaluator demo_dt ''prompt_pairs.json''
          (demo_world [demo_pair, broken_pair])) = Inl (KeyError ''id'')"
  "map (\<lambda>c. req_content (sent c))
     (calls (snd (run_evaluation demo_evaluator demo_dt ''prompt_pairs.json''
                    (demo_world [demo_pair, broken_pair])))) = [JStr ''down'', JStr ''up'']"
  "files (snd (run_evaluation demo_evaluator demo_dt ''prompt_pairs.json''
                 (demo_world [demo_pair, broken_pair]))) = []"
  by (simp_all add: demo_unfold)


lemma process_pairs_append:
  "process_pairs self dt (xs @ ys) acc w =
     (case process_pairs self dt xs acc w of
        (Inl e, w') \<Rightarrow> (Inl e, w')
      | (Inr rs, w') \<Rightarrow> process_pairs self dt ys rs w')"
  by (induction xs arbitrary: acc w) (auto split: prod.splits sum.splits)

lemma string_valued_lookup:
  assumes "string_valued (JObj kvs)" and "map_of kvs k = Some v"
  shows "\<exists>s. v = JStr s"
proof -
  from assms(2) have "(k, v) \<in> set kvs" by (rule map_of_SomeD)
  with assms(1) have "case v of JStr s \<Rightarrow> True | _ \<Rightarrow> False"
    by (auto simp: string_valued_def list_all_iff)
  then show ?thesis by (cases v) simp_all
qed

lemma process_pair_missing:
  assumes ni: "never_interrupts (client self)"
    and sv: "string_valued p"
    and fm: "first_missing p = Some k"
  shows "fst (process_pair self dt p acc w) = Inl (KeyError k) \<and>
         files (snd (process_pair self dt p acc w)) = files w \<and>
         length (calls (snd (process_pair self dt p acc w))) =
           length (calls w) + (if k = ''invested_framing'' then 1 else 0)"
proof -
  from sv obtain kvs where p: "p = JObj kvs"
    by (cases p) (simp_all add: string_valued_def)
  have str: "\<And>k v. map_of kvs k = Some v \<Longrightarrow> \<exists>s. v = JStr s"
    using sv p string_valued_lookup by blast
  have miss: "\<And>k. (subscript p k = Inl (KeyError k)) = (map_of kvs k = None)"
    by (simp add: p split: option.splits)
  show ?thesis
  proof (cases "map_of kvs ''id''")
    case None
    with fm miss have "k = ''id''" by (simp add: first_missing_def required_fields_def)
    with None show ?thesis by (simp add: process_pair_def p)
  next
    case (Some v1)
    with str obtain a where a: "map_of kvs ''id'' = Some (JStr a)" by blast
    show ?thesis
    proof (cases "map_of kvs ''category''")
      case None
      with fm miss a have "k = ''category''"
        by (simp add: first_missing_def required_fields_def)
      with None a show ?thesis by (simp add: process_pair_def p)
    next
      case (Some v2)
      with str obtain b where b: "map_of kvs ''category'' = Some (JStr b)" by blast
      show ?thesis
      proof (cases "map_of kvs ''base_question''")
        case None
        with fm miss a b have "k = ''base_question''"
          by (simp add: first_missing_def required_fields_def)
        with None a b show ?thesis by (simp add: process_pair_def p)
      next
        case (Some v3)
        with str obtain c where c: "map_of kvs ''base_question'' = Some (JStr c)" by blast
        show ?thesis
        proof (cases "map_of kvs ''neutral_framing''")
          case None
          with fm miss a b c have "k = ''neutral_framing''"
            by (simp add: first_missing_def required_fields_def)
          with None a b c show ?thesis by (simp add: process_pair_def p)
        next
          case (Some v4)
          with str obtain d where d: "map_of kvs ''neutral_framing'' = Some (JStr d)" by blast
          from fm miss a b c d have k: "k = ''invested_framing''"
            and e: "map_of kvs ''invested_framing'' = None"
            by (simp_all add: first_missing_def required_fields_def split: if_splits)
          from ni have "outcome_of (logged self (JStr d) 1024 w) \<noteq> Interrupted"
            by (rule logged_simps(4))
          with a b c d e k show ?thesis
            by (simp add: process_pair_def p send_prompt_eq)
        qed
      qed
    qed
  qed
qed

lemma process_pair_missing_calls:
  assumes ni: "never_interrupts (client self)"
    and sv: "string_valued p"
    and fm: "first_missing p = Some k"
  shows "\<exists>cs. calls (snd (process_pair self dt p acc w)) = calls w @ cs \<and>
           map (\<lambda>c. Inr (req_content (sent c))) cs =
             (if k = ''invested_framing'' then [subscript p ''neutral_framing''] else [])"
proof -
  from sv obtain kvs where p: "p = JObj kvs"
    by (cases p) (simp_all add: string_valued_def)
  have str: "\<And>k v. map_of kvs k = Some v \<Longrightarrow> \<exists>s. v = JStr s"
    using sv p string_valued_lookup by blast
  have miss: "\<And>k. (subscript p k = Inl (KeyError k)) = (map_of kvs k = None)"
    by (simp add: p split: option.splits)
  show ?thesis
  proof (cases "map_of kvs ''id''")
    case None
    with fm miss have "k = ''id''" by (simp add: first_missing_def required_fields_def)
    with None show ?thesis by (simp add: process_pair_def p)
  next
    case (Some v1)
    with str obtain a where a: "map_of kvs ''id'' = Some (JStr a)" by blast
    show ?thesis
    proof (cases "map_of kvs ''category''")
      case None
      with fm miss a have "k = ''category''"
        by (simp add: first_missing_def required_fields_def)
      with None a show ?thesis by (simp add: process_pair_def p)
    next
      case (Some v2)
      with str obtain b where b: "map_of kvs ''category'' = Some (JStr b)" by blast
      show ?thesis
      proof (cases "map_of kvs ''base_question''")
        case None
        with fm miss a b have "k = ''base_question''"
          by (simp add: first_missing_def required_fields_def)
        with None a b show ?thesis by (simp add: process_pair_def p)
      next
        case (Some v3)
        with str obtain c where c: "map_of kvs ''base_question'' = Some (JStr c)" by blast
        show ?thesis
        proof (cases "map_of kvs ''neutral_framing''")
          case None
          with fm miss a b c have "k = ''neutral_framing''"
            by (simp add: first_missing_def required_fields_def)
          with None a b c show ?thesis by (simp add: process_pair_def p)
        next
          case (Some v4)
          with str obtain d where d: "map_of kvs ''neutral_framing'' = Some (JStr d)" by blast
          from fm miss a b c d have k: "k = ''invested_framing''"
            and e: "map_of kvs ''invested_framing'' = None"
            by (simp_all add: first_missing_def required_fields_def split: if_splits)
          from ni have "outcome_of (logged self (JStr d) 1024 w) \<noteq> Interrupted"
            by (rule logged_simps(4))
          with a b c d e k show ?thesis
            by (simp add: process_pair_def p send_prompt_eq logged_simps(3))
        qed
      qed
    qed
  qed
qed

section \<open>The claims\<close>

text \<open>
  C1. For a source that holds N valid pairs, and a service that is not interrupted, the
  run returns exactly 2N records: the labels of the records (prompt id, category, base
  question, framing type, prompt sent) are, pair after pair in source order, those of
  the neutral record followed by those of the invested record of that pair.
\<close>

theorem two_records_per_pair_in_order:
  assumes "load_prompt_pairs path w = Inr (JArr ps)"
    and "list_all valid_pair ps"
    and "never_interrupts (client self)"
  shows "\<exists>results w'.
     run_evaluation self dt path w = (Inr results, w') \<and>
     length results = 2 * length ps \<and>
     map labels results =
       concat (map (\<lambda>p.
         [(subscript p ''id'', subscript p ''category'', subscript p ''base_question'',
           Inr (JStr ''neutral''), subscript p ''neutral_framing''),
          (subscript p ''id'', subscript p ''category'', subscript p ''base_question'',
           Inr (JStr ''invested''), subscript p ''invested_framing'')]) ps)"
  using valid_run [OF assms, of dt] by blast

theorem two_records_per_pair_in_order_witness:
  "load_prompt_pairs ''prompt_pairs.json'' (demo_world [demo_pair]) = Inr (JArr [demo_pair]) \<and>
   list_all valid_pair [demo_pair] \<and> never_interrupts (client demo_evaluator) \<and>
   (\<exists>results w'.
     run_evaluation demo_evaluator demo_dt ''prompt_pairs.json'' (demo_world [demo_pair]) =
       (Inr results, w') \<and>
     length results = 2 \<and>
     map labels results =
       [(Inr (JStr ''p1''), Inr (JStr ''c1''), Inr (JStr ''q1''), Inr (JStr ''neutral''),
         Inr (JStr ''down'')),
        (Inr (JStr ''p1''), Inr (JStr ''c1''), Inr (JStr ''q1''), Inr (JStr ''invested''),
         Inr (JStr ''up''))])"
proof -
  have h1: "load_prompt_pairs ''prompt_pairs.json'' (demo_world [demo_pair]) = Inr (JArr [demo_pair])"
    by (rule demo_loads)
  have h2: "list_all valid_pair [demo_pair]" by (simp add: demo_pair_valid)
  have h3: "never_interrupts (client demo_evaluator)" by (rule demo_never_interrupts)
  from two_records_per_pair_in_order [OF h1 h2 h3, of demo_dt] h1 h2 h3
  show ?thesis by (simp add: demo_pair_def)
qed

text \<open>
  C2. For a source of N valid pairs and a service that is not interrupted, the run
  returns although calls fail: 2N calls are issued, one for each framing of each pair in
  order (so a failed neutral call is followed by the invested call of the same pair and
  by the calls of the later pairs), record i reports call i, and when call i failed with
  description e the response of record i is the string ERROR: followed by e.
\<close>

theorem failed_call_is_recorded_and_run_goes_on:
  assumes "load_prompt_pairs path w = Inr (JArr ps)"
    and "list_all valid_pair ps"
    and "never_interrupts (client self)"
  shows "\<exists>results w' cs.
     run_evaluation self dt path w = (Inr results, w') \<and>
     calls w' = calls w @ cs \<and>
     length results = 2 * length ps \<and> length cs = 2 * length ps \<and>
     map (\<lambda>c. Inr (req_content (sent c))) cs =
       concat (map (\<lambda>p. [subscript p ''neutral_framing'', subscript p ''invested_framing'']) ps) \<and>
     (\<forall>i<2 * length ps.
        subscript (JObj (results ! i)) ''full_prompt'' = Inr (req_content (sent (cs ! i))) \<and>
        (\<forall>e. outcome_of (cs ! i) = Failed e \<longrightarrow>
             subscript (JObj (results ! i)) ''response'' = Inr (JStr (''ERROR: '' @ e))) \<and>
        (\<forall>t. outcome_of (cs ! i) = Text t \<longrightarrow>
             subscript (JObj (results ! i)) ''response'' = Inr (JStr t)))"
proof -
  from valid_run [OF assms, of dt]
  obtain rs cs w1 where
    run: "run_evaluation self dt path w = (Inr rs, w1\<lparr>files := files w @ written self dt rs w\<rparr>)" and
    c: "calls w1 = calls w @ cs" and
    n: "length rs = 2 * length ps" "length cs = 2 * length ps" and
    b: "list_all2 (built_from self dt) rs cs" and
    l: "map labels rs =
       concat (map (\<lambda>p.
         [(subscript p ''id'', subscript p ''category'', subscript p ''base_question'',
           Inr (JStr ''neutral''), subscript p ''neutral_framing''),
          (subscript p ''id'', subscript p ''category'', subscript p ''base_question'',
           Inr (JStr ''invested''), subscript p ''invested_framing'')]) ps)"
    by blast
  have "list_all2 (\<lambda>r c. subscript (JObj r) ''full_prompt'' = Inr (req_content (sent c))) rs cs"
    using b by (rule list_all2_mono) (simp add: built_from_def)
  then have "map (\<lambda>c. Inr (req_content (sent c))) cs =
             map (\<lambda>r. subscript (JObj r) ''full_prompt'') rs"
    by (rule list_all2_map_eq [symmetric])
  also have "\<dots> = map (\<lambda>x. snd (snd (snd (snd x)))) (map labels rs)"
    by (simp add: labels_def)
  also have "\<dots> =
      concat (map (\<lambda>p. [subscript p ''neutral_framing'', subscript p ''invested_framing'']) ps)"
    unfolding l by (simp add: map_concat comp_def)
  finally have sent_all: "map (\<lambda>c. Inr (req_content (sent c))) cs =
      concat (map (\<lambda>p. [subscript p ''neutral_framing'', subscript p ''invested_framing'']) ps)" .
  have each: "\<forall>i<2 * length ps.
        subscript (JObj (rs ! i)) ''full_prompt'' = Inr (req_content (sent (cs ! i))) \<and>
        (\<forall>e. outcome_of (cs ! i) = Failed e \<longrightarrow>
             subscript (JObj (rs ! i)) ''response'' = Inr (JStr (''ERROR: '' @ e))) \<and>
        (\<forall>t. outcome_of (cs ! i) = Text t \<longrightarrow>
             subscript (JObj (rs ! i)) ''response'' = Inr (JStr t))"
  proof (intro allI impI)
    fix i assume "i < 2 * length ps"
    with n have "i < length rs" by simp
    from list_all2_nthD [OF b this] have "built_from self dt (rs ! i) (cs ! i)" .
    then show "subscript (JObj (rs ! i)) ''full_prompt'' = Inr (req_content (sent (cs ! i))) \<and>
        (\<forall>e. outcome_of (cs ! i) = Failed e \<longrightarrow>
             subscript (JObj (rs ! i)) ''response'' = Inr (JStr (''ERROR: '' @ e))) \<and>
        (\<forall>t. outcome_of (cs ! i) = Text t \<longrightarrow>
             subscript (JObj (rs ! i)) ''response'' = Inr (JStr t))"
      by (simp add: built_from_def reply_def)
  qed
  have "calls (w1\<lparr>files := files w @ written self dt rs w\<rparr>) = calls w @ cs"
    using c by simp
  with run n sent_all each show ?thesis by blast
qed

theorem failed_call_is_recorded_and_run_goes_on_witness:
  "load_prompt_pairs ''prompt_pairs.json'' (demo_world [demo_pair]) = Inr (JArr [demo_pair]) \<and>
   list_all valid_pair [demo_pair] \<and> never_interrupts (client demo_evaluator) \<and>
   (\<exists>results w' cs.
     run_evaluation demo_evaluator demo_dt ''prompt_pairs.json'' (demo_world [demo_pair]) =
       (Inr results, w') \<and>
     calls w' = calls (demo_world [demo_pair]) @ cs \<and>
     length results = 2 \<and> length cs = 2 \<and>
     map (\<lambda>c. Inr (req_content (sent c))) cs = [Inr (JStr ''down''), Inr (JStr ''up'')] \<and>
     outcome_of (cs ! 0) = Failed ''timeout'' \<and>
     subscript (JObj (results ! 0)) ''response'' = Inr (JStr ''ERROR: timeout'') \<and>
     outcome_of (cs ! 1) = Text ''OK'' \<and>
     subscript (JObj (results ! 1)) ''response'' = Inr (JStr ''OK''))"
proof -
  have h1: "load_prompt_pairs ''prompt_pairs.json'' (demo_world [demo_pair]) = Inr (JArr [demo_pair])"
    by (rule demo_loads)
  have h2: "list_all valid_pair [demo_pair]" by (simp add: demo_pair_valid)
  have h3: "never_interrupts (client demo_evaluator)" by (rule demo_never_interrupts)
  from failed_call_is_recorded_and_run_goes_on [OF h1 h2 h3, of demo_dt]
  obtain results w' cs where
    run: "run_evaluation demo_evaluator demo_dt ''prompt_pairs.json'' (demo_world [demo_pair]) =
       (Inr results, w')" and
    c: "calls w' = calls (demo_world [demo_pair]) @ cs" and
    n: "length results = 2 * length [demo_pair]" "length cs = 2 * length [demo_pair]" and
    s: "map (\<lambda>c. Inr (req_content (sent c))) cs =
       concat (map (\<lambda>p. [subscript p ''neutral_framing'', subscript p ''invested_framing''])
                 [demo_pair])" and
    e: "\<forall>i<2 * length [demo_pair].
        subscript (JObj (results ! i)) ''full_prompt'' = Inr (req_content (sent (cs ! i))) \<and>
        (\<forall>e. outcome_of (cs ! i) = Failed e \<longrightarrow>
             subscript (JObj (results ! i)) ''response'' = Inr (JStr (''ERROR: '' @ e))) \<and>
        (\<forall>t. outcome_of (cs ! i) = Text t \<longrightarrow>
             subscript (JObj (results ! i)) ''response'' = Inr (JStr t))"
    by blast
  from run demo_run_calls c have cs: "cs =
     [\<lparr>invoked_at = 2,
       sent = \<lparr>req_model = ''m1'', req_max_tokens = 1024, req_content = JStr ''down''\<rparr>,
       returned_at = 5, outcome_of = Failed ''timeout''\<rparr>,
      \<lparr>invoked_at = 5,
       sent = \<lparr>req_model = ''m1'', req_max_tokens = 1024, req_content = JStr ''up''\<rparr>,
       returned_at = 10, outcome_of = Text ''OK''\<rparr>]"
    by (simp add: demo_world_def)
  from e have e0: "\<forall>e. outcome_of (cs ! 0) = Failed e \<longrightarrow>
             subscript (JObj (results ! 0)) ''response'' = Inr (JStr (''ERROR: '' @ e))"
    and e1: "\<forall>t. outcome_of (cs ! 1) = Text t \<longrightarrow>
             subscript (JObj (results ! 1)) ''response'' = Inr (JStr t)"
    by simp_all
  from e0 cs have r0: "subscript (JObj (results ! 0)) ''response'' = Inr (JStr ''ERROR: timeout'')"
    by simp
  from e1 cs have r1: "subscript (JObj (results ! 1)) ''response'' = Inr (JStr ''OK'')"
    by simp
  from run c n s r0 r1 cs h1 h2 h3 show ?thesis by (simp add: demo_pair_def)
qed

text \<open>
  C3 as stated fails: for the source that holds the demo pair followed by a pair without
  \<open>id\<close>, the load returns both pairs, and the run raises \<open>KeyError\<close> only after it has
  issued both service calls of the first pair.
\<close>

theorem load_accepts_pair_without_id_counterexample:
  "first_missing broken_pair = Some ''id'' \<and>
   load_prompt_pairs ''prompt_pairs.json'' (demo_world [demo_pair, broken_pair]) =
     Inr (JArr [demo_pair, broken_pair]) \<and>
   fst (run_evaluation demo_evaluator demo_dt ''prompt_pairs.json''
          (demo_world [demo_pair, broken_pair])) = Inl (KeyError ''id'') \<and>
   length (calls (snd (run_evaluation demo_evaluator demo_dt ''prompt_pairs.json''
                         (demo_world [demo_pair, broken_pair])))) = 2 \<and>
   calls (demo_world [demo_pair, broken_pair]) = []"
proof -
  have "first_missing broken_pair = Some ''id''"
    by (simp add: first_missing_def required_fields_def broken_pair_def)
  moreover have "length (calls (snd (run_evaluation demo_evaluator demo_dt ''prompt_pairs.json''
                         (demo_world [demo_pair, broken_pair])))) = 2"
    using broken_run(2) [THEN arg_cong, of length] by simp
  moreover have "calls (demo_world [demo_pair, broken_pair]) = []"
    by (simp add: demo_world_def)
  ultimately show ?thesis using demo_loads broken_run(1) by simp
qed

text \<open>
  C3, amended. The load does not look at the pairs: it returns whatever list the source
  holds under \<open>prompt_pairs\<close>. Let the source hold a list in which some pair lacks a
  required key, and let three conditions hold: every pair before the first such pair is
  valid, that pair is an object all of whose values are strings, and no service call is
  interrupted. Then the run raises \<open>KeyError\<close> for the first key that pair lacks, in the
  order \<open>id, category, base_question, neutral_framing, invested_framing\<close>, and returns no
  records. The service calls issued by then are exactly the neutral and the
  invested call of every earlier pair, in source order, followed by the neutral call of
  the defective pair when \<open>invested_framing\<close> is the key it lacks; no file has been
  written.
\<close>

theorem missing_field_stops_the_run_at_that_pair:
  assumes "disk w path = Holds (JObj src)"
    and "map_of src ''prompt_pairs'' = Some (JArr (good @ bad # rest))"
    and "list_all valid_pair good"
    and "string_valued bad"
    and "first_missing bad = Some k"
    and "never_interrupts (client self)"
  shows "load_prompt_pairs path w = Inr (JArr (good @ bad # rest)) \<and>
     (\<exists>w' cs.
        run_evaluation self dt path w = (Inl (KeyError k), w') \<and>
        files w' = files w \<and>
        calls w' = calls w @ cs \<and>
        map (\<lambda>c. Inr (req_content (sent c))) cs =
          concat (map (\<lambda>p. [subscript p ''neutral_framing'', subscript p ''invested_framing''])
                    good) @
          (if k = ''invested_framing'' then [subscript bad ''neutral_framing''] else []) \<and>
        length (calls w') =
          length (calls w) + 2 * length good + (if k = ''invested_framing'' then 1 else 0))"
proof -
  have load: "load_prompt_pairs path w = Inr (JArr (good @ bad # rest))"
    using assms(1,2) by (simp add: load_prompt_pairs_def)
  from process_pairs_valid [OF assms(6) assms(3), of dt "[]" w]
  obtain rs cs w1 where
    g: "process_pairs self dt good [] w = (Inr rs, w1)" and
    c: "calls w1 = calls w @ cs" and
    f: "files w1 = files w" and
    b: "list_all2 (built_from self dt) rs cs" and
    l: "map labels rs =
       concat (map (\<lambda>p.
         [(subscript p ''id'', subscript p ''category'', subscript p ''base_question'',
           Inr (JStr ''neutral''), subscript p ''neutral_framing''),
          (subscript p ''id'', subscript p ''category'', subscript p ''base_question'',
           Inr (JStr ''invested''), subscript p ''invested_framing'')]) good)"
    by auto
  have "length (map labels rs) = 2 * length good"
    unfolding l by (rule length_concat_two)
  with b have n: "length cs = 2 * length good" by (simp add: list_all2_lengthD [symmetric])
  have "list_all2 (\<lambda>r c. subscript (JObj r) ''full_prompt'' = Inr (req_content (sent c))) rs cs"
    using b by (rule list_all2_mono) (simp add: built_from_def)
  then have "map (\<lambda>c. Inr (req_content (sent c))) cs =
             map (\<lambda>r. subscript (JObj r) ''full_prompt'') rs"
    by (rule list_all2_map_eq [symmetric])
  also have "\<dots> = map (\<lambda>x. snd (snd (snd (snd x)))) (map labels rs)"
    by (simp add: labels_def)
  also have "\<dots> =
      concat (map (\<lambda>p. [subscript p ''neutral_framing'', subscript p ''invested_framing'']) good)"
    unfolding l by (simp add: map_concat comp_def)
  finally have sent_good: "map (\<lambda>c. Inr (req_content (sent c))) cs =
      concat (map (\<lambda>p. [subscript p ''neutral_framing'', subscript p ''invested_framing'']) good)" .
  obtain r2 w2 where step: "process_pair self dt bad rs w1 = (r2, w2)"
    by (cases "process_pair self dt bad rs w1")
  from process_pair_missing [OF assms(6) assms(4) assms(5), of dt rs w1] step
  have r2: "r2 = Inl (KeyError k)" and f2: "files w2 = files w1"
    by simp_all
  from process_pair_missing_calls [OF assms(6) assms(4) assms(5), of dt rs w1] step
  obtain cs2 where c2: "calls w2 = calls w1 @ cs2" and
    s2: "map (\<lambda>c. Inr (req_content (sent c))) cs2 =
           (if k = ''invested_framing'' then [subscript bad ''neutral_framing''] else [])"
    by auto
  have "length (map (\<lambda>c. Inr (req_content (sent c)) :: error + json) cs2) =
          (if k = ''invested_framing'' then 1 else 0)"
    unfolding s2 by simp
  then have n2: "length cs2 = (if k = ''invested_framing'' then 1 else 0)" by simp
  have loop: "process_pairs self dt (good @ bad # rest) [] w = (Inl (KeyError k), w2)"
    by (simp add: process_pairs_append g step r2)
  have run: "run_evaluation self dt path w = (Inl (KeyError k), w2)"
    by (simp add: run_evaluation_def load loop Let_def)
  have 1: "calls w2 = calls w @ (cs @ cs2)" using c c2 by simp
  have 2: "map (\<lambda>c. Inr (req_content (sent c))) (cs @ cs2) =
          concat (map (\<lambda>p. [subscript p ''neutral_framing'', subscript p ''invested_framing''])
                    good) @
          (if k = ''invested_framing'' then [subscript bad ''neutral_framing''] else [])"
    using sent_good s2 by simp
  have 3: "length (calls w2) =
          length (calls w) + 2 * length good + (if k = ''invested_framing'' then 1 else 0)"
    using 1 n n2 by simp
  have 4: "files w2 = files w" using f f2 by simp
  have "\<exists>w' cs.
        run_evaluation self dt path w = (Inl (KeyError k), w') \<and>
        files w' = files w \<and>
        calls w' = calls w @ cs \<and>
        map (\<lambda>c. Inr (req_content (sent c))) cs =
          concat (map (\<lambda>p. [subscript p ''neutral_framing'', subscript p ''invested_framing''])
                    good) @
          (if k = ''invested_framing'' then [subscript bad ''neutral_framing''] else []) \<and>
        length (calls w') =
          length (calls w) + 2 * length good + (if k = ''invested_framing'' then 1 else 0)"
    by (intro exI [of _ w2] exI [of _ "cs @ cs2"] conjI run 4 1 2 3)
  with load show ?thesis by (rule conjI)
qed

theorem missing_field_stops_the_run_at_that_pair_witness:
  "disk (demo_world [demo_pair, half_pair, broken_pair]) ''prompt_pairs.json'' =
     Holds (JObj [(''prompt_pairs'', JArr ([demo_pair] @ half_pair # [broken_pair]))]) \<and>
   map_of [(''prompt_pairs'', JArr ([demo_pair] @ half_pair # [broken_pair]))] ''prompt_pairs'' =
     Some (JArr ([demo_pair] @ half_pair # [broken_pair])) \<and>
   list_all valid_pair [demo_pair] \<and> string_valued half_pair \<and>
   first_missing half_pair = Some ''invested_framing'' \<and>
   never_interrupts (client demo_evaluator) \<and>
   load_prompt_pairs ''prompt_pairs.json'' (demo_world [demo_pair, half_pair, broken_pair]) =
     Inr (JArr [demo_pair, half_pair, broken_pair]) \<and>
   (\<exists>w' cs.
      run_evaluation demo_evaluator demo_dt ''prompt_pairs.json''
        (demo_world [demo_pair, half_pair, broken_pair]) =
        (Inl (KeyError ''invested_framing''), w') \<and>
      files w' = [] \<and> calls w' = cs \<and>
      map (\<lambda>c. Inr (req_content (sent c))) cs =
        [Inr (JStr ''down''), Inr (JStr ''up''), Inr (JStr ''n3'') :: error + json] \<and>
      length (calls w') = 3)"
proof -
  let ?w = "demo_world [demo_pair, half_pair, broken_pair]"
  have h1: "disk ?w ''prompt_pairs.json'' =
     Holds (JObj [(''prompt_pairs'', JArr ([demo_pair] @ half_pair # [broken_pair]))])"
    by (simp add: demo_world_def)
  have h2: "map_of [(''prompt_pairs'', JArr ([demo_pair] @ half_pair # [broken_pair]))]
              ''prompt_pairs'' = Some (JArr ([demo_pair] @ half_pair # [broken_pair]))"
    by simp
  have h3: "list_all valid_pair [demo_pair]" by (simp add: demo_pair_valid)
  have h4: "string_valued half_pair" by (simp add: string_valued_def half_pair_def)
  have h5: "first_missing half_pair = Some ''invested_framing''"
    by (simp add: first_missing_def required_fields_def half_pair_def)
  have h6: "never_interrupts (client demo_evaluator)" by (rule demo_never_interrupts)
  from missing_field_stops_the_run_at_that_pair [OF h1 h2 h3 h4 h5 h6, of demo_dt]
  obtain w' cs where
    l: "load_prompt_pairs ''prompt_pairs.json'' ?w =
          Inr (JArr ([demo_pair] @ half_pair # [broken_pair]))" and
    r: "run_evaluation demo_evaluator demo_dt ''prompt_pairs.json'' ?w =
          (Inl (KeyError ''invested_framing''), w')" and
    f: "files w' = files ?w" and
    c: "calls w' = calls ?w @ cs" and
    s: "map (\<lambda>c. Inr (req_content (sent c))) cs =
          concat (map (\<lambda>p. [subscript p ''neutral_framing'', subscript p ''invested_framing''])
                    [demo_pair]) @
          (if ''invested_framing'' = ''invested_framing''
           then [subscript half_pair ''neutral_framing''] else [])" and
    n: "length (calls w') =
          length (calls ?w) + 2 * length [demo_pair] +
          (if ''invested_framing'' = ''invested_framing'' then 1 else 0)"
    by blast
  from l have l': "load_prompt_pairs ''prompt_pairs.json'' ?w =
     Inr (JArr [demo_pair, half_pair, broken_pair])" by simp
  from f have f': "files w' = []" by (simp add: demo_world_def)
  from c have c': "calls w' = cs" by (simp add: demo_world_def)
  from s have s': "map (\<lambda>c. Inr (req_content (sent c))) cs =
        [Inr (JStr ''down''), Inr (JStr ''up''), Inr (JStr ''n3'') :: error + json]"
    by (simp add: demo_pair_def half_pair_def)
  from n have n': "length (calls w') = 3" by (simp add: demo_world_def)
  have "\<exists>w' cs.
      run_evaluation demo_evaluator demo_dt ''prompt_pairs.json'' ?w =
        (Inl (KeyError ''invested_framing''), w') \<and>
      files w' = [] \<and> calls w' = cs \<and>
      map (\<lambda>c. Inr (req_content (sent c))) cs =
        [Inr (JStr ''down''), Inr (JStr ''up''), Inr (JStr ''n3'') :: error + json] \<and>
      length (calls w') = 3"
    by (intro exI [of _ w'] exI [of _ cs] conjI r f' c' s' n')
  with h1 h2 h3 h4 h5 h6 l' show ?thesis by (intro conjI)
qed

text \<open>
  C4. Whenever a run returns, the two files it has written agree: the results array of
  the structured document is the list of records the run returns, the tabular document
  has one row per record after its header, and in row i the cell of column j is the
  value that record i of the structured document holds under the name of column j;
  a row has as many cells and a record as many fields as there are columns.
\<close>

theorem tabular_rows_equal_structured_records:
  assumes "run_evaluation self dt path w = (Inr results, w')"
  shows "\<exists>doc recs rows.
     files w' = files w @
       [(output_file self (strftime dt (now w)) ''.json'', JsonFile doc),
        (output_file self (strftime dt (now w)) ''.csv'', CsvFile (map JStr fieldnames # rows))] \<and>
     subscript doc ''results'' = Inr (JArr recs) \<and>
     recs = map JObj results \<and>
     length rows = length recs \<and>
     (\<forall>i<length recs.
        length (rows ! i) = length fieldnames \<and>
        py_len (recs ! i) = Inr (length fieldnames) \<and>
        (\<forall>j<length fieldnames. subscript (recs ! i) (fieldnames ! j) = Inr (rows ! i ! j)))"
proof -
  from run_evaluation_success [OF assms]
  obtain w1 where
    k: "list_all (\<lambda>r. map fst r = fieldnames) results" and
    w': "w' = w1\<lparr>files := files w @ written self dt results w\<rparr>"
    by blast
  let ?ts = "strftime dt (now w)"
  let ?rows = "map (map snd) results"
  have 1: "files w' = files w @
       [(output_file self ?ts ''.json'', JsonFile (json_document self results ?ts)),
        (output_file self ?ts ''.csv'', CsvFile (map JStr fieldnames # ?rows))]"
    by (simp add: w' written_def)
  have 2: "subscript (json_document self results ?ts) ''results'' = Inr (JArr (map JObj results))"
    by (simp add: json_document_def)
  have 3: "\<forall>i<length (map JObj results).
        length (?rows ! i) = length fieldnames \<and>
        py_len (map JObj results ! i) = Inr (length fieldnames) \<and>
        (\<forall>j<length fieldnames.
           subscript (map JObj results ! i) (fieldnames ! j) = Inr (?rows ! i ! j))"
  proof (intro allI impI)
    fix i assume "i < length (map JObj results)"
    then have i: "i < length results" by simp
    with k have ki: "map fst (results ! i) = fieldnames" by (simp add: list_all_length)
    then have "length (results ! i) = length fieldnames" by (metis length_map)
    moreover have "remdups (map fst (results ! i)) = map fst (results ! i)"
      using ki distinct_fieldnames by (simp add: distinct_remdups_id)
    moreover have "\<forall>j<length fieldnames.
        subscript (JObj (results ! i)) (fieldnames ! j) = Inr (map snd (results ! i) ! j)"
      using record_field_nth [OF ki] by blast
    ultimately show "length (?rows ! i) = length fieldnames \<and>
        py_len (map JObj results ! i) = Inr (length fieldnames) \<and>
        (\<forall>j<length fieldnames.
           subscript (map JObj results ! i) (fieldnames ! j) = Inr (?rows ! i ! j))"
      using i ki by simp
  qed
  have 4: "length ?rows = length (map JObj results)" by simp
  from 1 2 3 4 show ?thesis by blast
qed

theorem tabular_rows_equal_structured_records_witness:
  "\<exists>results w'.
     run_evaluation demo_evaluator demo_dt ''prompt_pairs.json'' (demo_world [demo_pair]) =
       (Inr results, w') \<and>
     (\<exists>doc recs rows.
        files w' =
          [(output_file demo_evaluator (strftime demo_dt 2) ''.json'', JsonFile doc),
           (output_file demo_evaluator (strftime demo_dt 2) ''.csv'',
            CsvFile (map JStr fieldnames # rows))] \<and>
        subscript doc ''results'' = Inr (JArr recs) \<and>
        recs = map JObj results \<and>
        length rows = 2 \<and> length recs = 2 \<and>
        subscript (recs ! 0) (fieldnames ! 5) = Inr (rows ! 0 ! 5) \<and>
        rows ! 0 ! 5 = JStr ''ERROR: timeout'')"
proof -
  obtain r w' where run:
    "run_evaluation demo_evaluator demo_dt ''prompt_pairs.json'' (demo_world [demo_pair]) = (r, w')"
    by (cases "run_evaluation demo_evaluator demo_dt ''prompt_pairs.json'' (demo_world [demo_pair])")
  from demo_run_results run obtain results where r: "r = Inr results" and
    res: "results = [[(''prompt_id'', JStr ''p1''), (''category'', JStr ''c1''),
           (''base_question'', JStr ''q1''), (''framing_type'', JStr ''neutral''),
           (''full_prompt'', JStr ''down''), (''response'', JStr ''ERROR: timeout''),
           (''timestamp'', JStr (isoformat demo_dt 5)), (''model'', JStr ''m1'')],
          [(''prompt_id'', JStr ''p1''), (''category'', JStr ''c1''),
           (''base_question'', JStr ''q1''), (''framing_type'', JStr ''invested''),
           (''full_prompt'', JStr ''up''), (''response'', JStr ''OK''),
           (''timestamp'', JStr (isoformat demo_dt 10)), (''model'', JStr ''m1'')]]"
    by simp
  from tabular_rows_equal_structured_records [OF run [unfolded r]]
  obtain doc recs rows where
    f: "files w' = files (demo_world [demo_pair]) @
       [(output_file demo_evaluator (strftime demo_dt (now (demo_world [demo_pair]))) ''.json'',
         JsonFile doc),
        (output_file demo_evaluator (strftime demo_dt (now (demo_world [demo_pair]))) ''.csv'',
         CsvFile (map JStr fieldnames # rows))]" and
    d: "subscript doc ''results'' = Inr (JArr recs)" "recs = map JObj results" and
    n: "length rows = length recs" and
    e: "\<forall>i<length recs.
        length (rows ! i) = length fieldnames \<and>
        py_len (recs ! i) = Inr (length fieldnames) \<and>
        (\<forall>j<length fieldnames. subscript (recs ! i) (fieldnames ! j) = Inr (rows ! i ! j))"
    by blast
  from d(2) res have lr: "length recs = 2" by simp
  with n have lrows: "length rows = 2" by simp
  from e lr have "\<forall>j<length fieldnames. subscript (recs ! 0) (fieldnames ! j) = Inr (rows ! 0 ! j)"
    by simp
  moreover have "5 < length fieldnames" by (simp add: fieldnames_def)
  ultimately have c: "subscript (recs ! 0) (fieldnames ! 5) = Inr (rows ! 0 ! 5)"
    by blast
  with d(2) res have v: "rows ! 0 ! 5 = JStr ''ERROR: timeout''"
    by (simp add: fieldnames_def)
  from f have f': "files w' =
          [(output_file demo_evaluator (strftime demo_dt 2) ''.json'', JsonFile doc),
           (output_file demo_evaluator (strftime demo_dt 2) ''.csv'',
            CsvFile (map JStr fieldnames # rows))]"
    by (simp add: demo_world_def)
  from run r f' d lrows lr c v show ?thesis by blast
qed

text \<open>
  C5 as stated fails: in the run of the one demo pair the first call is invoked at time 2
  and returns at time 5, and the first record carries the time 5; the second call is
  invoked at 5 and its record carries the time 10 at which it returned.
\<close>

theorem timestamp_at_invocation_counterexample:
  "fst (run_evaluation demo_evaluator demo_dt ''prompt_pairs.json'' (demo_world [demo_pair])) =
     Inr [[(''prompt_id'', JStr ''p1''), (''category'', JStr ''c1''),
           (''base_question'', JStr ''q1''), (''framing_type'', JStr ''neutral''),
           (''full_prompt'', JStr ''down''), (''response'', JStr ''ERROR: timeout''),
           (''timestamp'', JStr (isoformat demo_dt 5)), (''model'', JStr ''m1'')],
          [(''prompt_id'', JStr ''p1''), (''category'', JStr ''c1''),
           (''base_question'', JStr ''q1''), (''framing_type'', JStr ''invested''),
           (''full_prompt'', JStr ''up''), (''response'', JStr ''OK''),
           (''timestamp'', JStr (isoformat demo_dt 10)), (''model'', JStr ''m1'')]] \<and>
   invoked_at (calls (snd (run_evaluation demo_evaluator demo_dt ''prompt_pairs.json''
                             (demo_world [demo_pair]))) ! 0) = 2 \<and>
   returned_at (calls (snd (run_evaluation demo_evaluator demo_dt ''prompt_pairs.json''
                              (demo_world [demo_pair]))) ! 0) = 5 \<and>
   invoked_at (calls (snd (run_evaluation demo_evaluator demo_dt ''prompt_pairs.json''
                             (demo_world [demo_pair]))) ! 1) = 5 \<and>
   returned_at (calls (snd (run_evaluation demo_evaluator demo_dt ''prompt_pairs.json''
                              (demo_world [demo_pair]))) ! 1) = 10 \<and>
   isoformat demo_dt 5 \<noteq> isoformat demo_dt 2 \<and>
   isoformat demo_dt 10 \<noteq> isoformat demo_dt 5"
proof -
  have "isoformat demo_dt 5 \<noteq> isoformat demo_dt 2" "isoformat demo_dt 10 \<noteq> isoformat demo_dt 5"
    by (simp_all add: demo_dt_def)
  then show ?thesis by (simp add: demo_run_results demo_run_calls)
qed

text \<open>
  C5, amended. For a source of N valid pairs and a service that is not interrupted,
  record i carries the reading of the clock taken when its record is built, after call
  i has returned: it is not earlier than the invocation of call i or than the start of
  the run, and not later than the invocation of the next call. Each of the 2N
  records has a reading of its own.
\<close>

theorem timestamp_is_taken_after_the_call_returns:
  assumes "load_prompt_pairs path w = Inr (JArr ps)"
    and "list_all valid_pair ps"
    and "never_interrupts (client self)"
  shows "\<exists>results w' cs.
     run_evaluation self dt path w = (Inr results, w') \<and>
     calls w' = calls w @ cs \<and>
     length results = 2 * length ps \<and> length cs = 2 * length ps \<and>
     (\<forall>i<2 * length ps.
        subscript (JObj (results ! i)) ''timestamp'' =
          Inr (JStr (isoformat dt (returned_at (cs ! i)))) \<and>
        now w \<le> invoked_at (cs ! i) \<and>
        invoked_at (cs ! i) \<le> returned_at (cs ! i) \<and>
        (Suc i < 2 * length ps \<longrightarrow> returned_at (cs ! i) \<le> invoked_at (cs ! Suc i)))"
proof -
  from valid_run [OF assms, of dt]
  obtain rs cs w1 where
    run: "run_evaluation self dt path w = (Inr rs, w1\<lparr>files := files w @ written self dt rs w\<rparr>)" and
    c: "calls w1 = calls w @ cs" and
    n: "length rs = 2 * length ps" "length cs = 2 * length ps" and
    b: "list_all2 (built_from self dt) rs cs" and
    t: "back_to_back (now w) cs (now w1)"
    by blast
  have each: "\<forall>i<2 * length ps.
        subscript (JObj (rs ! i)) ''timestamp'' =
          Inr (JStr (isoformat dt (returned_at (cs ! i)))) \<and>
        now w \<le> invoked_at (cs ! i) \<and>
        invoked_at (cs ! i) \<le> returned_at (cs ! i) \<and>
        (Suc i < 2 * length ps \<longrightarrow> returned_at (cs ! i) \<le> invoked_at (cs ! Suc i))"
  proof (intro allI impI)
    fix i assume i: "i < 2 * length ps"
    with n have ir: "i < length rs" and ic: "i < length cs" by simp_all
    from list_all2_nthD [OF b ir] have "built_from self dt (rs ! i) (cs ! i)" .
    then have "subscript (JObj (rs ! i)) ''timestamp'' =
          Inr (JStr (isoformat dt (returned_at (cs ! i))))"
      by (simp add: built_from_def)
    moreover from back_to_back_nth [OF t ic] n
    have "now w \<le> invoked_at (cs ! i) \<and> invoked_at (cs ! i) \<le> returned_at (cs ! i) \<and>
          (Suc i < 2 * length ps \<longrightarrow> returned_at (cs ! i) \<le> invoked_at (cs ! Suc i))"
      by simp
    ultimately show "subscript (JObj (rs ! i)) ''timestamp'' =
          Inr (JStr (isoformat dt (returned_at (cs ! i)))) \<and>
        now w \<le> invoked_at (cs ! i) \<and>
        invoked_at (cs ! i) \<le> returned_at (cs ! i) \<and>
        (Suc i < 2 * length ps \<longrightarrow> returned_at (cs ! i) \<le> invoked_at (cs ! Suc i))"
      by simp
  qed
  have "calls (w1\<lparr>files := files w @ written self dt rs w\<rparr>) = calls w @ cs"
    using c by simp
  with run n each show ?thesis by blast
qed

theorem timestamp_is_taken_after_the_call_returns_witness:
  "load_prompt_pairs ''prompt_pairs.json'' (demo_world [demo_pair]) = Inr (JArr [demo_pair]) \<and>
   list_all valid_pair [demo_pair] \<and> never_interrupts (client demo_evaluator) \<and>
   (\<exists>results w' cs.
     run_evaluation demo_evaluator demo_dt ''prompt_pairs.json'' (demo_world [demo_pair]) =
       (Inr results, w') \<and>
     calls w' = calls (demo_world [demo_pair]) @ cs \<and>
     length results = 2 \<and> length cs = 2 \<and>
     map (\<lambda>c. (invoked_at c, returned_at c)) cs = [(2, 5), (5, 10)] \<and>
     subscript (JObj (results ! 0)) ''timestamp'' = Inr (JStr (isoformat demo_dt 5)) \<and>
     subscript (JObj (results ! 1)) ''timestamp'' = Inr (JStr (isoformat demo_dt 10)))"
proof -
  have h1: "load_prompt_pairs ''prompt_pairs.json'' (demo_world [demo_pair]) = Inr (JArr [demo_pair])"
    by (rule demo_loads)
  have h2: "list_all valid_pair [demo_pair]" by (simp add: demo_pair_valid)
  have h3: "never_interrupts (client demo_evaluator)" by (rule demo_never_interrupts)
  from timestamp_is_taken_after_the_call_returns [OF h1 h2 h3, of demo_dt]
  obtain results w' cs where
    run: "run_evaluation demo_evaluator demo_dt ''prompt_pairs.json'' (demo_world [demo_pair]) =
       (Inr results, w')" and
    c: "calls w' = calls (demo_world [demo_pair]) @ cs" and
    n: "length results = 2 * length [demo_pair]" "length cs = 2 * length [demo_pair]" and
    e: "\<forall>i<2 * length [demo_pair].
        subscript (JObj (results ! i)) ''timestamp'' =
          Inr (JStr (isoformat demo_dt (returned_at (cs ! i)))) \<and>
        now (demo_world [demo_pair]) \<le> invoked_at (cs ! i) \<and>
        invoked_at (cs ! i) \<le> returned_at (cs ! i) \<and>
        (Suc i < 2 * length [demo_pair] \<longrightarrow> returned_at (cs ! i) \<le> invoked_at (cs ! Suc i))"
    by blast
  from run demo_run_calls c have cs: "cs =
     [\<lparr>invoked_at = 2,
       sent = \<lparr>req_model = ''m1'', req_max_tokens = 1024, req_content = JStr ''down''\<rparr>,
       returned_at = 5, outcome_of = Failed ''timeout''\<rparr>,
      \<lparr>invoked_at = 5,
       sent = \<lparr>req_model = ''m1'', req_max_tokens = 1024, req_content = JStr ''up''\<rparr>,
       returned_at = 10, outcome_of = Text ''OK''\<rparr>]"
    by (simp add: demo_world_def)
  from e have "subscript (JObj (results ! 0)) ''timestamp'' =
          Inr (JStr (isoformat demo_dt (returned_at (cs ! 0))))"
    and "subscript (JObj (results ! 1)) ''timestamp'' =
          Inr (JStr (isoformat demo_dt (returned_at (cs ! 1))))"
    by simp_all
  with cs have "subscript (JObj (results ! 0)) ''timestamp'' = Inr (JStr (isoformat demo_dt 5))"
    and "subscript (JObj (results ! 1)) ''timestamp'' = Inr (JStr (isoformat demo_dt 10))"
    by simp_all
  with run c n cs h1 h2 h3 show ?thesis by simp
qed

text \<open>
  C6 as stated fails: the metadata object that the run over the empty source writes has
  the keys \<open>timestamp\<close>, \<open>model\<close> and \<open>total_prompts\<close>; it holds the model under \<open>model\<close>
  and nothing under \<open>model_identifier\<close>.
\<close>

theorem metadata_has_no_model_identifier_counterexample:
  "snd (files (snd (run_evaluation demo_evaluator demo_dt ''prompt_pairs.json''
                      (demo_world []))) ! 0) =
     JsonFile (JObj
       [(''metadata'',
         JObj [(''timestamp'', JStr (strftime demo_dt 2)), (''model'', JStr ''m1''),
               (''total_prompts'', JNum 0)]),
        (''results'', JArr [])]) \<and>
   subscript (JObj [(''timestamp'', JStr (strftime demo_dt 2)), (''model'', JStr ''m1''),
                    (''total_prompts'', JNum 0)]) ''model_identifier'' =
     Inl (KeyError ''model_identifier'') \<and>
   subscript (JObj [(''timestamp'', JStr (strftime demo_dt 2)), (''model'', JStr ''m1''),
                    (''total_prompts'', JNum 0)]) ''model'' = Inr (JStr ''m1'')"
  by (simp add: demo_unfold)

text \<open>
  C6, amended. Whenever a run returns, it has written, in this order, the structured
  document \<open>{metadata: {timestamp, model, total_prompts}, results: [record, ...]}\<close> and the
  tabular document whose header row is \<open>prompt_id, category, base_question, framing_type,
  full_prompt, response, timestamp, model\<close>, followed by one row per record in the order
  of the results array; every record has exactly these eight names as its keys, in
  this order.
\<close>

theorem output_documents_have_this_shape:
  assumes "run_evaluation self dt path w = (Inr results, w')"
  shows "files w' = files w @
       [(results_dir self @ ''/evaluation_'' @ strftime dt (now w) @ ''.json'',
         JsonFile (JObj
           [(''metadata'',
             JObj [(''timestamp'', JStr (strftime dt (now w))),
                   (''model'', JStr (model self)),
                   (''total_prompts'', JNum (int (length results)))]),
            (''results'', JArr (map JObj results))])),
        (results_dir self @ ''/evaluation_'' @ strftime dt (now w) @ ''.csv'',
         CsvFile
           (map JStr [''prompt_id'', ''category'', ''base_question'', ''framing_type'',
                      ''full_prompt'', ''response'', ''timestamp'', ''model'']
            # map (map snd) results))] \<and>
     list_all (\<lambda>r. map fst r =
                  [''prompt_id'', ''category'', ''base_question'', ''framing_type'',
                   ''full_prompt'', ''response'', ''timestamp'', ''model'']) results"
proof -
  from run_evaluation_success [OF assms]
  obtain w1 where
    k: "list_all (\<lambda>r. map fst r = fieldnames) results" and
    w': "w' = w1\<lparr>files := files w @ written self dt results w\<rparr>"
    by blast
  from w' have "files w' = files w @ written self dt results w" by simp
  with k show ?thesis
    by (simp add: written_def json_document_def output_file_def fieldnames_def)
qed

theorem output_documents_have_this_shape_witness:
  "\<exists>results w'.
     run_evaluation demo_evaluator demo_dt ''prompt_pairs.json'' (demo_world [demo_pair]) =
       (Inr results, w') \<and>
     length results = 2 \<and>
     files w' =
       [(''results/evaluation_'' @ strftime demo_dt 2 @ ''.json'',
         JsonFile (JObj
           [(''metadata'',
             JObj [(''timestamp'', JStr (strftime demo_dt 2)),
                   (''model'', JStr ''m1''),
                   (''total_prompts'', JNum 2)]),
            (''results'', JArr (map JObj results))])),
        (''results/evaluation_'' @ strftime demo_dt 2 @ ''.csv'',
         CsvFile
           (map JStr [''prompt_id'', ''category'', ''base_question'', ''framing_type'',
                      ''full_prompt'', ''response'', ''timestamp'', ''model'']
            # map (map snd) results))] \<and>
     list_all (\<lambda>r. map fst r =
                  [''prompt_id'', ''category'', ''base_question'', ''framing_type'',
                   ''full_prompt'', ''response'', ''timestamp'', ''model'']) results"
proof -
  obtain r w' where run:
    "run_evaluation demo_evaluator demo_dt ''prompt_pairs.json'' (demo_world [demo_pair]) = (r, w')"
    by (cases "run_evaluation demo_evaluator demo_dt ''prompt_pairs.json'' (demo_world [demo_pair])")
  from demo_run_results run obtain results where r: "r = Inr results" and
    len: "length results = 2"
    by simp
  from output_documents_have_this_shape [OF run [unfolded r]] len
  have "files w' =
       [(''results/evaluation_'' @ strftime demo_dt 2 @ ''.json'',
         JsonFile (JObj
           [(''metadata'',
             JObj [(''timestamp'', JStr (strftime demo_dt 2)),
                   (''model'', JStr ''m1''),
                   (''total_prompts'', JNum 2)]),
            (''results'', JArr (map JObj results))])),
        (''results/evaluation_'' @ strftime demo_dt 2 @ ''.csv'',
         CsvFile
           (map JStr [''prompt_id'', ''category'', ''base_question'', ''framing_type'',
                      ''full_prompt'', ''response'', ''timestamp'', ''model'']
            # map (map snd) results))] \<and>
     list_all (\<lambda>r. map fst r =
                  [''prompt_id'', ''category'', ''base_question'', ''framing_type'',
                   ''full_prompt'', ''response'', ''timestamp'', ''model'']) results"
    by (simp add: demo_world_def demo_evaluator_def)
  with run r len show ?thesis by blast
qed



text \<open>
  C8. With no key passed and none in the environment the constructor raises
  \<open>ValueError\<close>: no evaluator exists on which a run could be started, and the world is as
  it was (no directory made, no service call issued, no file written). The script's
  entry point ends with the same error in the same world.
\<close>

theorem no_credential_is_a_startup_error:
  "init anthropic None None model_arg w = (Inl (ValueError no_key_message), w) \<and>
   main anthropic None dt w = (Inl (ValueError no_key_message), w)"
  by (simp add: init_def main_def py_or_def truthy_def)

theorem no_credential_is_a_startup_error_witness:
  "init (\<lambda>k. demo_service) None None default_model (demo_world [demo_pair]) =
     (Inl (ValueError no_key_message), demo_world [demo_pair]) \<and>
   main (\<lambda>k. demo_service) None demo_dt (demo_world [demo_pair]) =
     (Inl (ValueError no_key_message), demo_world [demo_pair]) \<and>
   calls (demo_world [demo_pair]) = []"
  using no_credential_is_a_startup_error
          [of "\<lambda>k. demo_service" default_model "demo_world [demo_pair]" demo_dt]
  by (simp add: demo_world_def)

text \<open>
  C9. When the source holds zero pairs the run returns the empty list, issues no service
  call, and writes both files: a structured document whose results array is empty (and
  whose total is 0) and a tabular document that consists of the header row.
\<close>

theorem zero_pairs_still_writes_both_files:
  assumes "load_prompt_pairs path w = Inr (JArr [])"
  shows "run_evaluation self dt path w =
     (Inr [],
      w\<lparr>files := files w @
          [(output_file self (strftime dt (now w)) ''.json'',
            JsonFile (JObj
              [(''metadata'',
                JObj [(''timestamp'', JStr (strftime dt (now w))),
                      (''model'', JStr (model self)),
                      (''total_prompts'', JNum 0)]),
               (''results'', JArr [])])),
           (output_file self (strftime dt (now w)) ''.csv'',
            CsvFile [map JStr fieldnames])]\<rparr>) \<and>
     calls (snd (run_evaluation self dt path w)) = calls w"
  using assms
  by (simp add: run_evaluation_def save_results_json_def save_results_csv_def
        json_document_def Let_def)

theorem zero_pairs_still_writes_both_files_witness:
  "load_prompt_pairs ''prompt_pairs.json'' (demo_world []) = Inr (JArr []) \<and>
   fst (run_evaluation demo_evaluator demo_dt ''prompt_pairs.json'' (demo_world [])) = Inr [] \<and>
   calls (snd (run_evaluation demo_evaluator demo_dt ''prompt_pairs.json'' (demo_world []))) = [] \<and>
   files (snd (run_evaluation demo_evaluator demo_dt ''prompt_pairs.json'' (demo_world []))) =
     [(''results/evaluation_'' @ strftime demo_dt 2 @ ''.json'',
       JsonFile (JObj
         [(''metadata'',
           JObj [(''timestamp'', JStr (strftime demo_dt 2)), (''model'', JStr ''m1''),
                 (''total_prompts'', JNum 0)]),
          (''results'', JArr [])])),
      (''results/evaluation_'' @ strftime demo_dt 2 @ ''.csv'',
       CsvFile
         [[JStr ''prompt_id'', JStr ''category'', JStr ''base_question'', JStr ''framing_type'',
           JStr ''full_prompt'', JStr ''response'', JStr ''timestamp'', JStr ''model'']])]"
proof -
  have h: "load_prompt_pairs ''prompt_pairs.json'' (demo_world []) = Inr (JArr [])"
    by (rule demo_loads)
  from zero_pairs_still_writes_both_files [OF h, of demo_evaluator demo_dt] h
  show ?thesis
    by (simp add: demo_world_def demo_evaluator_def output_file_def fieldnames_def)
qed

text \<open>
  C10. For a source of N valid pairs and a service that is not interrupted,
  \<open>total_prompts\<close> in the metadata of the structured document is 2N: the number of records
  and of service calls issued, not the number of pairs.
\<close>

theorem total_prompts_counts_records:
  assumes "load_prompt_pairs path w = Inr (JArr ps)"
    and "list_all valid_pair ps"
    and "never_interrupts (client self)"
  shows "\<exists>results w' doc tab md.
     run_evaluation self dt path w = (Inr results, w') \<and>
     length results = 2 * length ps \<and>
     length (calls w') = length (calls w) + 2 * length ps \<and>
     files w' = files w @ [(output_file self (strftime dt (now w)) ''.json'', JsonFile doc), tab] \<and>
     subscript doc ''metadata'' = Inr md \<and>
     subscript md ''total_prompts'' = Inr (JNum (2 * int (length ps)))"
proof -
  from valid_run [OF assms, of dt]
  obtain rs cs w1 where
    run: "run_evaluation self dt path w = (Inr rs, w1\<lparr>files := files w @ written self dt rs w\<rparr>)" and
    c: "calls w1 = calls w @ cs" and
    n: "length rs = 2 * length ps" "length cs = 2 * length ps"
    by blast
  let ?ts = "strftime dt (now w)"
  let ?md = "JObj [(''timestamp'', JStr ?ts), (''model'', JStr (model self)),
                   (''total_prompts'', JNum (int (length rs)))]"
  have 1: "files (w1\<lparr>files := files w @ written self dt rs w\<rparr>) =
        files w @ [(output_file self ?ts ''.json'', JsonFile (json_document self rs ?ts)),
                   (output_file self ?ts ''.csv'',
                    CsvFile (map JStr fieldnames # map (map snd) rs))]"
    by (simp add: written_def)
  have 2: "subscript (json_document self rs ?ts) ''metadata'' = Inr ?md"
    by (simp add: json_document_def)
  have 3: "subscript ?md ''total_prompts'' = Inr (JNum (2 * int (length ps)))"
    using n by simp
  have 4: "length (calls (w1\<lparr>files := files w @ written self dt rs w\<rparr>)) =
        length (calls w) + 2 * length ps"
    using c n by simp
  from run n(1) 4 1 2 3 show ?thesis by blast
qed

theorem total_prompts_counts_records_witness:
  "load_prompt_pairs ''prompt_pairs.json'' (demo_world [demo_pair]) = Inr (JArr [demo_pair]) \<and>
   list_all valid_pair [demo_pair] \<and> never_interrupts (client demo_evaluator) \<and>
   (\<exists>results w' doc tab md.
     run_evaluation demo_evaluator demo_dt ''prompt_pairs.json'' (demo_world [demo_pair]) =
       (Inr results, w') \<and>
     length results = 2 \<and>
     length (calls w') = 2 \<and>
     files w' = [(output_file demo_evaluator (strftime demo_dt 2) ''.json'', JsonFile doc), tab] \<and>
     subscript doc ''metadata'' = Inr md \<and>
     subscript md ''total_prompts'' = Inr (JNum 2))"
proof -
  have h1: "load_prompt_pairs ''prompt_pairs.json'' (demo_world [demo_pair]) = Inr (JArr [demo_pair])"
    by (rule demo_loads)
  have h2: "list_all valid_pair [demo_pair]" by (simp add: demo_pair_valid)
  have h3: "never_interrupts (client demo_evaluator)" by (rule demo_never_interrupts)
  from total_prompts_counts_records [OF h1 h2 h3, of demo_dt]
  obtain results w' doc tab md where
    run: "run_evaluation demo_evaluator demo_dt ''prompt_pairs.json'' (demo_world [demo_pair]) =
       (Inr results, w')" and
    n: "length results = 2 * length [demo_pair]" and
    c: "length (calls w') = length (calls (demo_world [demo_pair])) + 2 * length [demo_pair]" and
    f: "files w' = files (demo_world [demo_pair]) @
         [(output_file demo_evaluator (strftime demo_dt (now (demo_world [demo_pair]))) ''.json'',
           JsonFile doc), tab]" and
    m: "subscript doc ''metadata'' = Inr md"
       "subscript md ''total_prompts'' = Inr (JNum (2 * int (length [demo_pair])))"
    by blast
  from n have n': "length results = 2" by simp
  from c have c': "length (calls w') = 2" by (simp add: demo_world_def)
  from f have f': "files w' =
      [(output_file demo_evaluator (strftime demo_dt 2) ''.json'', JsonFile doc), tab]"
    by (simp add: demo_world_def)
  from m(2) have m': "subscript md ''total_prompts'' = Inr (JNum 2)" by simp
  from run n' c' f' m(1) m' h1 h2 h3 show ?thesis by blast
qed

end
